theory Spec2Isabelle
  imports Complex_Main "HOL-Library.Multiset"
begin

section \<open>JavaScript values\<close>

text \<open>
  The collector works on values decoded from JSON (and on a few records it assembles itself,
  which may hold \<^verbatim>\<open>undefined\<close>). Numbers are modelled as reals: \<^verbatim>\<open>NaN\<close>, the
  infinities and rounding are outside the model. Strings are byte strings; an object is the
  list of its own entries in \<^verbatim>\<open>Object.entries\<close> order. The only functions the
  collector can meet as values are the members a plain object inherits from
  \<^verbatim>\<open>Object.prototype\<close>; \<open>JFunction n\<close> is the built-in function named \<open>n\<close>.
\<close>

datatype json =
    JNull
  | JUndefined
  | JBool bool
  | JNum real
  | JStr string
  | JArr "json list"
  | JObj "(string \<times> json) list"
  | JFunction string

datatype error =
    TypeError string
  | HttpError nat string string
  | GraphQLHttpError nat string string
  | GraphQLErrors string
  | NetworkError string
  | SyntaxError string

text \<open>Truthiness, as \<^verbatim>\<open>||\<close>, \<^verbatim>\<open>&&\<close> and \<^verbatim>\<open>if\<close> test it.\<close>

fun truthy :: "json \<Rightarrow> bool" where
  "truthy JNull = False"
| "truthy JUndefined = False"
| "truthy (JBool b) = b"
| "truthy (JNum n) = (n \<noteq> 0)"
| "truthy (JStr s) = (s \<noteq> [])"
| "truthy (JArr _) = True"
| "truthy (JObj _) = True"
| "truthy (JFunction _) = True"

text \<open>Property access \<^verbatim>\<open>o.k\<close> on an object: the value of the entry, else \<^verbatim>\<open>undefined\<close>.\<close>

fun get_field :: "(string \<times> json) list \<Rightarrow> string \<Rightarrow> json" where
  "get_field kvs k = (case map_of kvs k of Some v \<Rightarrow> v | None \<Rightarrow> JUndefined)"

text \<open>\<^verbatim>\<open>String.prototype.toLowerCase\<close> on the ASCII letters (other bytes are kept).\<close>

definition lower_char :: "char \<Rightarrow> char" where
  "lower_char c =
     (case map_of (zip ''ABCDEFGHIJKLMNOPQRSTUVWXYZ'' ''abcdefghijklmnopqrstuvwxyz'') c of
        Some l \<Rightarrow> l
      | None \<Rightarrow> c)"

definition toLowerCase :: "string \<Rightarrow> string" where
  "toLowerCase s = map lower_char s"

text \<open>\<^verbatim>\<open>s.split(d)\<close> for a one-character separator: always at least one part.\<close>

fun split_on :: "char \<Rightarrow> string \<Rightarrow> string list" where
  "split_on d [] = [[]]"
| "split_on d (c # cs) =
     (if c = d then [] # split_on d cs
      else (case split_on d cs of
              p # ps \<Rightarrow> (c # p) # ps
            | [] \<Rightarrow> [[c]]))"

section \<open>Small utilities\<close>

text \<open>
  \<^verbatim>\<open>function normalizeAddress(addr) { return (addr || "").toLowerCase(); }\<close>
  Only strings have \<^verbatim>\<open>toLowerCase\<close>: on a truthy value that is not a string the call
  raises a \<^verbatim>\<open>TypeError\<close>.
\<close>

fun normalizeAddress :: "json \<Rightarrow> error + string" where
  "normalizeAddress (JStr s) = Inr (toLowerCase s)"
| "normalizeAddress v =
     (if truthy v then Inl (TypeError ''toLowerCase is not a function'')
      else Inr (toLowerCase []))"

text \<open>
  \<^verbatim>\<open>
  function extractPtAddressFromPendleActive(ptField) {
    if (typeof ptField === "string") {
      const parts = ptField.split("-");
      return normalizeAddress(parts[parts.length - 1]);
    }
    if (ptField && typeof ptField === "object") {
      if (ptField.address) return normalizeAddress(ptField.address);
      if (ptField.token) return normalizeAddress(ptField.token);
      if (ptField.id) return normalizeAddress(ptField.id);
    }
    return "";
  }
  \<close>
  An array is an object too; its \<^verbatim>\<open>address\<close>, \<^verbatim>\<open>token\<close> and \<^verbatim>\<open>id\<close> are
  \<^verbatim>\<open>undefined\<close>.
\<close>

fun extractPtAddressFromPendleActive :: "json \<Rightarrow> error + string" where
  "extractPtAddressFromPendleActive (JStr s) = normalizeAddress (JStr (last (split_on CHR ''-'' s)))"
| "extractPtAddressFromPendleActive (JObj kvs) =
     (if truthy (get_field kvs ''address'') then normalizeAddress (get_field kvs ''address'')
      else if truthy (get_field kvs ''token'') then normalizeAddress (get_field kvs ''token'')
      else if truthy (get_field kvs ''id'') then normalizeAddress (get_field kvs ''id'')
      else Inr [])"
| "extractPtAddressFromPendleActive v = Inr []"

section \<open>Flattening and export helpers\<close>

text \<open>
  \<^verbatim>\<open>typeof v === "object"\<close> holds of objects, arrays and \<^verbatim>\<open>null\<close>.
\<close>

fun typeof_object :: "json \<Rightarrow> bool" where
  "typeof_object JNull = True"
| "typeof_object (JArr _) = True"
| "typeof_object (JObj _) = True"
| "typeof_object _ = False"

text \<open>\<^verbatim>\<open>parts.join(sep)\<close> on strings.\<close>

fun join_strings :: "string \<Rightarrow> string list \<Rightarrow> string" where
  "join_strings sep [] = []"
| "join_strings sep [s] = s"
| "join_strings sep (s # t # ss) = s @ sep @ join_strings sep (t # ss)"

text \<open>
  \<^verbatim>\<open>String(v)\<close>, and \<^verbatim>\<open>Array.prototype.join\<close>, which renders \<^verbatim>\<open>null\<close> and
  \<^verbatim>\<open>undefined\<close> elements as the empty string and every other element by
  \<^verbatim>\<open>String\<close>. The decimal text of a number is the parameter \<open>shown\<close>.
\<close>

fun js_String :: "(real \<Rightarrow> string) \<Rightarrow> json \<Rightarrow> string" where
  "js_String shown JNull = ''null''"
| "js_String shown JUndefined = ''undefined''"
| "js_String shown (JBool b) = (if b then ''true'' else ''false'')"
| "js_String shown (JNum n) = shown n"
| "js_String shown (JStr s) = s"
| "js_String shown (JArr xs) =
     join_strings '','' (map (\<lambda>x. if x = JNull \<or> x = JUndefined then [] else js_String shown x) xs)"
| "js_String shown (JObj kvs) = ''[object Object]''"
| "js_String shown (JFunction n) = ''function '' @ n @ ''() { [native code] }''"

definition array_join :: "(real \<Rightarrow> string) \<Rightarrow> string \<Rightarrow> json list \<Rightarrow> string" where
  "array_join shown sep xs =
     join_strings sep (map (\<lambda>x. if x = JNull \<or> x = JUndefined then [] else js_String shown x) xs)"

text \<open>
  \<^verbatim>\<open>JSON.stringify\<close> without indentation. Inside an array \<^verbatim>\<open>undefined\<close> and a
  function are written \<^verbatim>\<open>null\<close>; an object entry whose value is \<^verbatim>\<open>undefined\<close> or
  a function is left out.
\<close>

fun json_omitted :: "json \<Rightarrow> bool" where
  "json_omitted JUndefined = True"
| "json_omitted (JFunction n) = True"
| "json_omitted v = False"

definition hex_digit :: "nat \<Rightarrow> char" where
  "hex_digit n = ''0123456789abcdef'' ! (n mod 16)"

definition json_escape_char :: "char \<Rightarrow> string" where
  "json_escape_char c =
     (if c = CHR 0x22 then [CHR 0x5C, CHR 0x22]
      else if c = CHR 0x5C then [CHR 0x5C, CHR 0x5C]
      else if c = CHR 0x08 then [CHR 0x5C, CHR ''b'']
      else if c = CHR 0x09 then [CHR 0x5C, CHR ''t'']
      else if c = CHR 0x0A then [CHR 0x5C, CHR ''n'']
      else if c = CHR 0x0C then [CHR 0x5C, CHR ''f'']
      else if c = CHR 0x0D then [CHR 0x5C, CHR ''r'']
      else if (of_char c :: nat) < 32
        then [CHR 0x5C, CHR ''u'', CHR ''0'', CHR ''0'',
              hex_digit ((of_char c :: nat) div 16), hex_digit (of_char c)]
      else [c])"

definition json_quote :: "string \<Rightarrow> string" where
  "json_quote s = [CHR 0x22] @ concat (map json_escape_char s) @ [CHR 0x22]"

fun JSON_stringify :: "(real \<Rightarrow> string) \<Rightarrow> json \<Rightarrow> string" where
  "JSON_stringify shown JNull = ''null''"
| "JSON_stringify shown JUndefined = ''null''"
| "JSON_stringify shown (JBool b) = (if b then ''true'' else ''false'')"
| "JSON_stringify shown (JNum n) = shown n"
| "JSON_stringify shown (JStr s) = json_quote s"
| "JSON_stringify shown (JArr xs) =
     ''['' @ join_strings '','' (map (JSON_stringify shown) xs) @ '']''"
| "JSON_stringify shown (JObj kvs) =
     ''{'' @ join_strings '',''
        (map (\<lambda>kv. json_quote (fst kv) @ '':'' @ JSON_stringify shown (snd kv))
           (filter (\<lambda>kv. \<not> json_omitted (snd kv)) kvs)) @ ''}''"
| "JSON_stringify shown (JFunction n) = ''null''"

text \<open>
  The own keys of an object are listed with the array indices first, in ascending numeric
  order, and the other keys after them in the order of their creation. An array index is
  the decimal text, without leading zero, of an integer below \<open>2\<^sup>3\<^sup>2 - 1\<close>.
\<close>

definition digit_value :: "char \<Rightarrow> nat" where
  "digit_value c =
     (case map_of (zip ''0123456789'' [0, 1, 2, 3, 4, 5, 6, 7, 8, 9]) c of
        Some d \<Rightarrow> d
      | None \<Rightarrow> 0)"

definition decimal_value :: "string \<Rightarrow> nat" where
  "decimal_value s = foldl (\<lambda>n c. 10 * n + digit_value c) 0 s"

definition array_index :: "string \<Rightarrow> nat option" where
  "array_index s =
     (if s \<noteq> [] \<and> list_all (\<lambda>c. c \<in> set ''0123456789'') s
         \<and> (s = ''0'' \<or> hd s \<noteq> CHR ''0'') \<and> decimal_value s < 4294967295
      then Some (decimal_value s)
      else None)"

text \<open>
  Assignment \<^verbatim>\<open>o[k] = v\<close> on a plain object kept as the list of its own entries. An
  existing key keeps its place and takes the new value. A new key that is an array index is
  placed among the indices, any other new key goes to the end. The key \<^verbatim>\<open>__proto__\<close>
  names the prototype accessor inherited from \<^verbatim>\<open>Object.prototype\<close>: assigning to it
  creates no own entry.
\<close>

fun obj_replace :: "(string \<times> 'v) list \<Rightarrow> string \<Rightarrow> 'v \<Rightarrow> (string \<times> 'v) list" where
  "obj_replace [] k v = []"
| "obj_replace ((k', v') # kvs) k v =
     (if k' = k then (k, v) # kvs else (k', v') # obj_replace kvs k v)"

fun insert_index :: "nat \<Rightarrow> string \<Rightarrow> 'v \<Rightarrow> (string \<times> 'v) list \<Rightarrow> (string \<times> 'v) list" where
  "insert_index n k v [] = [(k, v)]"
| "insert_index n k v ((k', v') # kvs) =
     (case array_index k' of
        Some m \<Rightarrow> if m < n then (k', v') # insert_index n k v kvs else (k, v) # (k', v') # kvs
      | None \<Rightarrow> (k, v) # (k', v') # kvs)"

definition obj_set :: "(string \<times> 'v) list \<Rightarrow> string \<Rightarrow> 'v \<Rightarrow> (string \<times> 'v) list" where
  "obj_set kvs k v =
     (if k = ''__proto__'' then kvs
      else if k \<in> fst ` set kvs then obj_replace kvs k v
      else (case array_index k of
              Some n \<Rightarrow> insert_index n k v kvs
            | None \<Rightarrow> kvs @ [(k, v)]))"

text \<open>
  \<^verbatim>\<open>
  function flatten(obj, prefix = "", out = {}) {
    if (obj === null || obj === undefined) {
      if (prefix) out[prefix] = "";
      return out;
    }
    if (Array.isArray(obj)) {
      if (obj.length && typeof obj[0] === "object") {
        out[prefix || "json"] = JSON.stringify(obj);
      } else {
        out[prefix || "list"] = obj.join("|");
      }
      return out;
    }
    if (typeof obj === "object") {
      for (const [k, v] of Object.entries(obj)) {
        const key = prefix ? `${prefix}.${k}` : k;
        flatten(v, key, out);
      }
      return out;
    }
    out[prefix] = obj;
    return out;
  }
  \<close>
\<close>

fun flatten :: "(real \<Rightarrow> string) \<Rightarrow> json \<Rightarrow> string \<Rightarrow> (string \<times> json) list \<Rightarrow> (string \<times> json) list" where
  "flatten shown JNull prefix out = (if prefix \<noteq> [] then obj_set out prefix (JStr []) else out)"
| "flatten shown JUndefined prefix out = (if prefix \<noteq> [] then obj_set out prefix (JStr []) else out)"
| "flatten shown (JArr xs) prefix out =
     (case xs of
        x # _ \<Rightarrow>
          if typeof_object x
          then obj_set out (if prefix \<noteq> [] then prefix else ''json'') (JStr (JSON_stringify shown (JArr xs)))
          else obj_set out (if prefix \<noteq> [] then prefix else ''list'') (JStr (array_join shown ''|'' xs))
      | [] \<Rightarrow> obj_set out (if prefix \<noteq> [] then prefix else ''list'') (JStr (array_join shown ''|'' xs)))"
| "flatten shown (JObj kvs) prefix out =
     fold (\<lambda>kv acc. flatten shown (snd kv) (if prefix \<noteq> [] then prefix @ ''.'' @ fst kv else fst kv) acc)
       kvs out"
| "flatten shown v prefix out = obj_set out prefix v"













section \<open>The concurrency gate\<close>











section \<open>Network helpers\<close>

text \<open>
  One call of \<^verbatim>\<open>fetch\<close> either throws (a transport failure) or yields a response: its
  status, status text, body text, and the value \<^verbatim>\<open>res.json()\<close> decodes (none when the
  body is not JSON). The executor is a function of the attempt number, so that every attempt
  may answer differently. A run is observed through its trace: one \<open>Fetch\<close> for each call of
  the executor, and \<open>Sleep base spread\<close> for each
  \<^verbatim>\<open>await sleep(base + Math.random() * spread)\<close>.
\<close>

record http_response =
  status :: nat
  statusText :: string
  body :: string
  parsed :: "json option"

datatype io_event = Fetch | Sleep nat nat

definition ok :: "http_response \<Rightarrow> bool" where
  "ok res = (200 \<le> status res \<and> status res \<le> 299)"

definition retryable_status :: "nat \<Rightarrow> bool" where
  "retryable_status st = (st \<in> set [429, 500, 502, 503, 504])"

text \<open>The delay of a sleep event when \<^verbatim>\<open>Math.random()\<close> returns \<open>r\<close>.\<close>

fun delay_ms :: "io_event \<Rightarrow> real \<Rightarrow> real" where
  "delay_ms (Sleep base spread) r = real base + r * real spread"
| "delay_ms Fetch r = 0"

definition http_backoff :: "nat \<Rightarrow> io_event" where
  "http_backoff tryNum = Sleep (min (1000 * 2 ^ tryNum) 30000) 1000"

definition gql_http_backoff :: "nat \<Rightarrow> io_event" where
  "gql_http_backoff tryNum = Sleep (min (1500 * 2 ^ tryNum) 45000) 1500"

definition gql_error_backoff :: "nat \<Rightarrow> io_event" where
  "gql_error_backoff tryNum = Sleep (2000 * 2 ^ tryNum) 1000"

text \<open>
  \<^verbatim>\<open>
  async function fetchJsonWithRetry(url, opts = {}, tryNum = 1) {
    const res = await fetch(url, opts);
    if (!res.ok) {
      const body = await res.text().catch(() => "");
      if (tryNum < CONFIG.maxRetries && [429, 500, 502, 503, 504].includes(res.status)) {
        const baseDelay = Math.min(1000 * Math.pow(2, tryNum), 30000);
        const jitter = Math.random() * 1000;
        await sleep(baseDelay + jitter);
        return fetchJsonWithRetry(url, opts, tryNum + 1);
      }
      throw new Error(`HTTP ${res.status} ${res.statusText} - ${url} - ${body}`);
    }
    return res.json();
  }
  \<close>
\<close>

function fetchJsonWithRetry ::
  "nat \<Rightarrow> (nat \<Rightarrow> error + http_response) \<Rightarrow> nat \<Rightarrow> (error + json) \<times> io_event list" where
  "fetchJsonWithRetry maxRetries exec tryNum =
     (case exec tryNum of
        Inl e \<Rightarrow> (Inl e, [Fetch])
      | Inr res \<Rightarrow>
          if \<not> ok res then
            if tryNum < maxRetries \<and> retryable_status (status res)
            then (case fetchJsonWithRetry maxRetries exec (tryNum + 1) of
                    (r, tr) \<Rightarrow> (r, Fetch # http_backoff tryNum # tr))
            else (Inl (HttpError (status res) (statusText res) (body res)), [Fetch])
          else (case parsed res of
                  None \<Rightarrow> (Inl (SyntaxError ''Unexpected token in JSON''), [Fetch])
                | Some j \<Rightarrow> (Inr j, [Fetch])))"
  by pat_completeness auto
termination
  by (relation "measure (\<lambda>(maxRetries, exec, tryNum). maxRetries - tryNum)") auto

declare fetchJsonWithRetry.simps [simp del]

text \<open>
  Reading a property: of an object its entry, of \<^verbatim>\<open>null\<close> and \<^verbatim>\<open>undefined\<close> a
  \<^verbatim>\<open>TypeError\<close>, of any other value \<^verbatim>\<open>undefined\<close>.
\<close>

fun read_prop :: "json \<Rightarrow> string \<Rightarrow> error + json" where
  "read_prop (JObj kvs) k = Inr (get_field kvs k)"
| "read_prop JNull k = Inl (TypeError (''Cannot read properties of null (reading '' @ k @ '')''))"
| "read_prop JUndefined k = Inl (TypeError (''Cannot read properties of undefined (reading '' @ k @ '')''))"
| "read_prop v k = Inr JUndefined"

text \<open>\<^verbatim>\<open>s.includes(pat)\<close>\<close>

fun starts_with :: "string \<Rightarrow> string \<Rightarrow> bool" where
  "starts_with s [] = True"
| "starts_with [] (p # ps) = False"
| "starts_with (c # cs) (p # ps) = (c = p \<and> starts_with cs ps)"

fun str_includes :: "string \<Rightarrow> string \<Rightarrow> bool" where
  "str_includes [] pat = (pat = [])"
| "str_includes (c # cs) pat = (starts_with (c # cs) pat \<or> str_includes cs pat)"

text \<open>
  \<^verbatim>\<open>
  async function gqlRequest(query, variables, tryNum = 1) {
    const res = await fetch(MORPHO_ENDPOINT, { ... });
    if (!res.ok) {
      const text = await res.text().catch(() => "");
      if (tryNum < CONFIG.maxRetries && [429, 500, 502, 503, 504].includes(res.status)) {
        const baseDelay = Math.min(1500 * Math.pow(2, tryNum), 45000);
        const jitter = Math.random() * 1500;
        await sleep(baseDelay + jitter);
        return gqlRequest(query, variables, tryNum + 1);
      }
      throw new Error(`GraphQL ${res.status} ${res.statusText}: ${text}`);
    }
    const json = await res.json();
    if (json.errors) {
      if (tryNum < 3) {
        await sleep(200 * tryNum);
        return gqlRequest(query, variables, tryNum + 1);
      }
      if (json.errors) {
        const errorMessage = JSON.stringify(json.errors);
        if (errorMessage.includes("Internal server error") && tryNum < CONFIG.maxRetries) {
          const delay = 2000 * Math.pow(2, tryNum) + Math.random() * 1000;
          await sleep(delay);
          return gqlRequest(query, variables, tryNum + 1);
        }
        throw new Error(`GraphQL errors: ${errorMessage}`);
      }
    }
    await sleep(CONFIG.rateLimitMs + Math.random() * 50);
    return json.data;
  }
  \<close>
\<close>

function gqlRequest ::
  "(real \<Rightarrow> string) \<Rightarrow> nat \<Rightarrow> nat \<Rightarrow> (nat \<Rightarrow> error + http_response) \<Rightarrow> nat
     \<Rightarrow> (error + json) \<times> io_event list" where
  "gqlRequest shown maxRetries rateLimitMs exec tryNum =
     (case exec tryNum of
        Inl e \<Rightarrow> (Inl e, [Fetch])
      | Inr res \<Rightarrow>
          if \<not> ok res then
            if tryNum < maxRetries \<and> retryable_status (status res)
            then (case gqlRequest shown maxRetries rateLimitMs exec (tryNum + 1) of
                    (r, tr) \<Rightarrow> (r, Fetch # gql_http_backoff tryNum # tr))
            else (Inl (GraphQLHttpError (status res) (statusText res) (body res)), [Fetch])
          else (case parsed res of
                  None \<Rightarrow> (Inl (SyntaxError ''Unexpected token in JSON''), [Fetch])
                | Some j \<Rightarrow>
                    (case read_prop j ''errors'' of
                       Inl e \<Rightarrow> (Inl e, [Fetch])
                     | Inr errs \<Rightarrow>
                         if truthy errs then
                           if tryNum < 3
                           then (case gqlRequest shown maxRetries rateLimitMs exec (tryNum + 1) of
                                   (r, tr) \<Rightarrow> (r, Fetch # Sleep (200 * tryNum) 0 # tr))
                           else if str_includes (JSON_stringify shown errs) ''Internal server error''
                                   \<and> tryNum < maxRetries
                           then (case gqlRequest shown maxRetries rateLimitMs exec (tryNum + 1) of
                                   (r, tr) \<Rightarrow> (r, Fetch # gql_error_backoff tryNum # tr))
                           else (Inl (GraphQLErrors (JSON_stringify shown errs)), [Fetch])
                         else (case read_prop j ''data'' of
                                 Inl e \<Rightarrow> (Inl e, [Fetch, Sleep rateLimitMs 50])
                               | Inr d \<Rightarrow> (Inr d, [Fetch, Sleep rateLimitMs 50])))))"
  by pat_completeness auto
termination
  by (relation "measure (\<lambda>(shown, maxRetries, rateLimitMs, exec, tryNum). max 3 maxRetries - tryNum)") auto

declare gqlRequest.simps [simp del]

text \<open>The number of times a run called the executor.\<close>

definition fetches :: "io_event list \<Rightarrow> nat" where
  "fetches tr = length (filter (\<lambda>ev. ev = Fetch) tr)"

definition sleeps :: "io_event list \<Rightarrow> io_event list" where
  "sleeps tr = filter (\<lambda>ev. ev \<noteq> Fetch) tr"

section \<open>Paginated fetchers\<close>

text \<open>
  A page as the provider answers it: \<^verbatim>\<open>items\<close> (possibly missing) and
  \<^verbatim>\<open>pageInfo.countTotal\<close> (possibly missing). The request function stands for
  \<^verbatim>\<open>gqlRequest\<close> followed by the selection of \<^verbatim>\<open>data.markets\<close> or
  \<^verbatim>\<open>data.transactions\<close>: it throws, or the selected page is missing (and reading
  \<^verbatim>\<open>page.items\<close> throws), or there is a page. Each call is made at a new \<open>skip\<close>, so a
  function of \<open>first\<close> and \<open>skip\<close> covers every sequence of answers.
\<close>

record 'a page =
  items :: "'a list option"
  countTotal :: "int option"

definition page_items :: "'a page \<Rightarrow> 'a list" where
  "page_items pg = (case items pg of Some xs \<Rightarrow> xs | None \<Rightarrow> [])"

text \<open>\<^verbatim>\<open>if (total === null) total = page.pageInfo?.countTotal ?? items.length;\<close>\<close>

definition page_total :: "int option \<Rightarrow> 'a page \<Rightarrow> int" where
  "page_total tot pg =
     (case tot of
        Some t \<Rightarrow> t
      | None \<Rightarrow> (case countTotal pg of Some t \<Rightarrow> t | None \<Rightarrow> int (length (page_items pg))))"

text \<open>
  The loop shared by \<^verbatim>\<open>fetchAllMorphoMarkets\<close> and
  \<^verbatim>\<open>fetchAllUserTransactionsForMarket\<close>:
  \<^verbatim>\<open>
  let skip = 0; const out = []; let total = null;
  for (;;) {
    const data = await gqlRequest(QUERY, { ..., first, skip });
    const page = data.transactions;
    const items = page.items || [];
    out.push(...items);
    if (total === null) total = page.pageInfo?.countTotal ?? items.length;
    skip += items.length;
    if (!items.length || skip >= total) break;
  }
  \<close>
  The result carries, next to the items, the number of requests made.
\<close>

function paginate ::
  "(nat \<Rightarrow> nat \<Rightarrow> error + 'a page option) \<Rightarrow> nat \<Rightarrow> nat \<Rightarrow> 'a list \<Rightarrow> int option \<Rightarrow> nat
     \<Rightarrow> error + ('a list \<times> nat)" where
  "paginate request first skip out tot calls =
     (case request first skip of
        Inl e \<Rightarrow> Inl e
      | Inr None \<Rightarrow> Inl (TypeError ''Cannot read properties of undefined (reading items)'')
      | Inr (Some pg) \<Rightarrow>
          if page_items pg = [] \<or> page_total tot pg \<le> int (skip + length (page_items pg))
          then Inr (out @ page_items pg, calls + 1)
          else paginate request first (skip + length (page_items pg)) (out @ page_items pg)
                 (Some (page_total tot pg)) (calls + 1))"
  by pat_completeness auto
termination
proof (relation "measure (\<lambda>(request, first, skip, out, tot, calls).
          case request first skip of
            Inr (Some pg) \<Rightarrow> nat (page_total tot pg - int skip)
          | _ \<Rightarrow> 0)")
  show "wf (measure (\<lambda>(request, first, skip, out, tot, calls).
          case request first skip of
            Inr (Some pg) \<Rightarrow> nat (page_total tot pg - int skip)
          | _ \<Rightarrow> 0))"
    by simp
next
  fix request :: "nat \<Rightarrow> nat \<Rightarrow> error + 'a page option"
    and first skip :: nat and out :: "'a list" and tot :: "int option" and calls :: nat
    and x2 :: "'a page option" and pg :: "'a page"
  assume req: "request first skip = Inr x2" "x2 = Some pg"
    and cont: "\<not> (page_items pg = [] \<or> page_total tot pg \<le> int (skip + length (page_items pg)))"
  have pos: "0 < length (page_items pg)" using cont by simp
  have lt: "int (skip + length (page_items pg)) < page_total tot pg" using cont by simp
  have "(case request first (skip + length (page_items pg)) of
           Inr (Some pg') \<Rightarrow> nat (page_total (Some (page_total tot pg)) pg' - int (skip + length (page_items pg)))
         | _ \<Rightarrow> 0)
        < nat (page_total tot pg - int skip)"
    using pos lt by (auto simp: page_total_def split: sum.splits option.splits)
  then show "((request, first, skip + length (page_items pg), out @ page_items pg,
               Some (page_total tot pg), calls + 1),
              (request, first, skip, out, tot, calls))
             \<in> measure (\<lambda>(request, first, skip, out, tot, calls).
                  case request first skip of
                    Inr (Some pg) \<Rightarrow> nat (page_total tot pg - int skip)
                  | _ \<Rightarrow> 0)"
    using req by simp
qed

declare paginate.simps [simp del]

definition fetchAllUserTransactionsForMarket ::
  "(nat \<Rightarrow> nat \<Rightarrow> error + 'a page option) \<Rightarrow> nat \<Rightarrow> error + 'a list" where
  "fetchAllUserTransactionsForMarket request txPageSize =
     map_sum id fst (paginate request txPageSize 0 [] None 0)"

text \<open>
  \<^verbatim>\<open>return CONFIG.marketsLimit ? all.slice(0, CONFIG.marketsLimit) : all;\<close>
  A limit that is absent or zero keeps everything; a negative one cuts from the end.
\<close>

definition slice_to :: "int \<Rightarrow> 'a list \<Rightarrow> 'a list" where
  "slice_to n xs = (if 0 \<le> n then take (nat n) xs else take (nat (int (length xs) + n)) xs)"

definition fetchAllMorphoMarkets ::
  "(nat \<Rightarrow> nat \<Rightarrow> error + 'a page option) \<Rightarrow> nat \<Rightarrow> int option \<Rightarrow> error + 'a list" where
  "fetchAllMorphoMarkets request morphoPageSize marketsLimit =
     (case paginate request morphoPageSize 0 [] None 0 of
        Inl e \<Rightarrow> Inl e
      | Inr (all, calls) \<Rightarrow>
          (case marketsLimit of
             None \<Rightarrow> Inr all
           | Some n \<Rightarrow> if n \<noteq> 0 then Inr (slice_to n all) else Inr all))"

text \<open>
  A provider that serves the list \<open>xs\<close> in pages: at most \<open>first\<close> items from position
  \<open>skip\<close>, and the length of \<open>xs\<close> as the reported total.
\<close>

definition serve_pages :: "'a list \<Rightarrow> nat \<Rightarrow> nat \<Rightarrow> error + 'a page option" where
  "serve_pages xs first skip =
     Inr (Some \<lparr>items = Some (take first (drop skip xs)), countTotal = Some (int (length xs))\<rparr>)"

section \<open>The collection run\<close>

text \<open>
  The entities the run handles, with the fields its control flow reads. The provider is a
  record of request functions, one for each query; each stands for \<^verbatim>\<open>gqlRequest\<close> with
  that query and the selection made on its \<^verbatim>\<open>data\<close>.
\<close>

record market =
  uniqueKey :: string
  loanAsset :: json
  collateralAsset :: json

record user =
  user_address :: "string option"

record borrower =
  b_user :: "user option"
  b_fields :: json

record 'tx enriched =
  en_borrower :: borrower
  en_transactions :: "'tx list"
  en_error :: "string option"

record 'tx entry =
  e_market :: market
  e_topBorrowers :: "'tx enriched list"
  e_error :: "string option"

record vault =
  vault_address :: string
  v_fields :: json

record ('tx, 'd) provider =
  markets_request :: "nat \<Rightarrow> nat \<Rightarrow> error + market page option"
  marketPositions_request :: "string \<Rightarrow> error + borrower list option"
  transactions_request :: "string \<Rightarrow> string \<Rightarrow> nat \<Rightarrow> nat \<Rightarrow> error + 'tx page option"
  curatorsAndVaults_result :: "error + json list \<times> vault list"
  vaultPositions_request :: "string \<Rightarrow> error + 'd list option"

record config =
  morphoPageSize :: nat
  txPageSize :: nat
  rateLimitMs :: nat
  marketsLimit :: "int option"
  testMode :: bool

text \<open>
  \<^verbatim>\<open>
  async function fetchTopBorrowersForMarket(marketUniqueKey) {
    const data = await gqlRequest(GET_TOP_5_BORROWERS, { marketUniqueKey });
    return data.marketPositions?.items || [];
  }
  \<close>
\<close>

definition fetchTopBorrowersForMarket :: "('tx, 'd) provider \<Rightarrow> string \<Rightarrow> error + borrower list" where
  "fetchTopBorrowersForMarket P marketUniqueKey =
     (case marketPositions_request P marketUniqueKey of
        Inl e \<Rightarrow> Inl e
      | Inr None \<Rightarrow> Inr []
      | Inr (Some bs) \<Rightarrow> Inr bs)"

text \<open>
  \<^verbatim>\<open>
  async function fetchVaultDepositors(vaultAddress) {
    try {
      const data = await gqlRequest(GET_VAULT_DEPOSITORS, { vaultAddress });
      return data.vaultPositions?.items || [];
    } catch (error) {
      console.error(`Error fetching depositors for vault ${vaultAddress}:`, error.message);
      // Return empty array on error instead of crashing
      return [];
    }
  }
  \<close>
\<close>

definition fetchVaultDepositors :: "('tx, 'd) provider \<Rightarrow> string \<Rightarrow> error + 'd list" where
  "fetchVaultDepositors P vaultAddress =
     (case vaultPositions_request P vaultAddress of
        Inl e \<Rightarrow> Inr []
      | Inr None \<Rightarrow> Inr []
      | Inr (Some ds) \<Rightarrow> Inr ds)"

text \<open>
  Step 2 of \<^verbatim>\<open>run\<close>, the task submitted for one market:
  \<^verbatim>\<open>
  const topBorrowers = await fetchTopBorrowersForMarket(mkt.uniqueKey);
  const enriched = [];
  for (const b of topBorrowers) {
    const userAddress = b?.user?.address;
    const txs = userAddress
      ? await fetchAllUserTransactionsForMarket(userAddress, mkt.uniqueKey)
      : [];
    enriched.push({ ...b, transactions: txs });
  }
  return { market: mkt, topBorrowers: enriched };
  \<close>
  There is no \<^verbatim>\<open>try\<close> in the task: an exception of either fetch rejects it.
\<close>

definition borrower_address :: "borrower \<Rightarrow> string option" where
  "borrower_address b = (case b_user b of None \<Rightarrow> None | Some u \<Rightarrow> user_address u)"

fun enrich :: "('tx, 'd) provider \<Rightarrow> config \<Rightarrow> market \<Rightarrow> borrower list \<Rightarrow> 'tx enriched list
    \<Rightarrow> error + 'tx enriched list" where
  "enrich P cfg mkt [] enriched = Inr enriched"
| "enrich P cfg mkt (b # bs) enriched =
     (case (case borrower_address b of
              None \<Rightarrow> Inr []
            | Some a \<Rightarrow>
                if a \<noteq> []
                then fetchAllUserTransactionsForMarket (transactions_request P a (uniqueKey mkt)) (txPageSize cfg)
                else Inr []) of
        Inl e \<Rightarrow> Inl e
      | Inr txs \<Rightarrow>
          enrich P cfg mkt bs (enriched @ [\<lparr>en_borrower = b, en_transactions = txs, en_error = None\<rparr>]))"

definition market_task :: "('tx, 'd) provider \<Rightarrow> config \<Rightarrow> market \<Rightarrow> error + 'tx entry" where
  "market_task P cfg mkt =
     (case fetchTopBorrowersForMarket P (uniqueKey mkt) of
        Inl e \<Rightarrow> Inl e
      | Inr topBorrowers \<Rightarrow>
          (case enrich P cfg mkt topBorrowers [] of
             Inl e \<Rightarrow> Inl e
           | Inr enriched \<Rightarrow> Inr \<lparr>e_market = mkt, e_topBorrowers = enriched, e_error = None\<rparr>))"

text \<open>
  \<^verbatim>\<open>Promise.all\<close>: the values in the order of the tasks when all are fulfilled, a
  rejection as soon as one is rejected. Which rejection is seen first depends on the
  schedule; the model reports the one of the first rejected task in list order.
\<close>

fun promise_all :: "(error + 'a) list \<Rightarrow> error + 'a list" where
  "promise_all [] = Inr []"
| "promise_all (Inl e # rs) = Inl e"
| "promise_all (Inr v # rs) = (case promise_all rs of Inl e \<Rightarrow> Inl e | Inr vs \<Rightarrow> Inr (v # vs))"

text \<open>
  Step 3 of \<^verbatim>\<open>run\<close>, the loop over the vaults:
  \<^verbatim>\<open>
  let failureCount = 0;
  let consecutiveFailures = 0;
  const maxConsecutiveFailures = 5;
  for (let i = 0; i < vaults.length; i++) {
    const va = vaults[i].address;
    if (consecutiveFailures >= maxConsecutiveFailures) {
      const breakerDelay = 5000 + Math.random() * 2000;
      await sleep(breakerDelay);
      consecutiveFailures = 0; // Reset after break
    }
    try {
      vaultDepositors[va] = await fetchVaultDepositors(va);
      consecutiveFailures = 0; // Reset on success
    } catch (error) {
      failureCount++;
      consecutiveFailures++;
      vaultDepositors[va] = [];
      if (consecutiveFailures > 2) {
        const backoffDelay = 1000 * consecutiveFailures + Math.random() * 1000;
        await sleep(backoffDelay);
      }
    }
    await sleep(CONFIG.rateLimitMs + Math.random() * 100);
    if (testMode) { if (i > 3) { break; } }
  }
  \<close>
\<close>

record 'd vault_state =
  vaultDepositors :: "(string \<times> 'd list) list"
  failureCount :: nat
  consecutiveFailures :: nat
  vault_log :: "io_event list"

definition maxConsecutiveFailures :: nat where
  "maxConsecutiveFailures = 5"

definition breaker_sleep :: io_event where
  "breaker_sleep = Sleep 5000 2000"

definition vault_iteration :: "('tx, 'd) provider \<Rightarrow> config \<Rightarrow> string \<Rightarrow> 'd vault_state \<Rightarrow> 'd vault_state" where
  "vault_iteration P cfg va st =
     (let st1 = (if maxConsecutiveFailures \<le> consecutiveFailures st
                 then st\<lparr>vault_log := vault_log st @ [breaker_sleep], consecutiveFailures := 0\<rparr>
                 else st);
          st2 = (case fetchVaultDepositors P va of
                   Inr ds \<Rightarrow> st1\<lparr>vaultDepositors := obj_set (vaultDepositors st1) va ds,
                                  consecutiveFailures := 0\<rparr>
                 | Inl e \<Rightarrow>
                     let st' = st1\<lparr>failureCount := failureCount st1 + 1,
                                    consecutiveFailures := consecutiveFailures st1 + 1,
                                    vaultDepositors := obj_set (vaultDepositors st1) va []\<rparr>
                     in if 2 < consecutiveFailures st'
                        then st'\<lparr>vault_log := vault_log st' @ [Sleep (1000 * consecutiveFailures st') 1000]\<rparr>
                        else st')
      in st2\<lparr>vault_log := vault_log st2 @ [Sleep (rateLimitMs cfg) 100]\<rparr>)"

fun vault_loop :: "('tx, 'd) provider \<Rightarrow> config \<Rightarrow> vault list \<Rightarrow> nat \<Rightarrow> 'd vault_state \<Rightarrow> 'd vault_state" where
  "vault_loop P cfg [] i st = st"
| "vault_loop P cfg (v # vs) i st =
     (let st' = vault_iteration P cfg (vault_address v) st
      in if testMode cfg \<and> 3 < i then st' else vault_loop P cfg vs (i + 1) st')"

definition vault_init :: "'d vault_state" where
  "vault_init = \<lparr>vaultDepositors = [], failureCount = 0, consecutiveFailures = 0, vault_log = []\<rparr>"

text \<open>
  Steps 1 to 3 of \<^verbatim>\<open>run\<close>: the market listing, the per-market tasks under
  \<^verbatim>\<open>Promise.all\<close>, the curator and vault listing, the vault loop. An exception that
  leaves \<^verbatim>\<open>run\<close> ends the process (\<^verbatim>\<open>run().catch(... process.exit(1))\<close>).
\<close>

record ('tx, 'd) collected =
  c_markets :: "'tx entry list"
  c_curators :: "json list"
  c_vaults :: "vault list"
  c_vaultDepositors :: "(string \<times> 'd list) list"

definition run_collect :: "('tx, 'd) provider \<Rightarrow> config \<Rightarrow> error + ('tx, 'd) collected" where
  "run_collect P cfg =
     (case fetchAllMorphoMarkets (markets_request P) (morphoPageSize cfg) (marketsLimit cfg) of
        Inl e \<Rightarrow> Inl e
      | Inr markets \<Rightarrow>
          (case promise_all (map (market_task P cfg) markets) of
             Inl e \<Rightarrow> Inl e
           | Inr marketsWithBorrowers \<Rightarrow>
               (case curatorsAndVaults_result P of
                  Inl e \<Rightarrow> Inl e
                | Inr (curators, vaults) \<Rightarrow>
                    Inr \<lparr>c_markets = marketsWithBorrowers, c_curators = curators, c_vaults = vaults,
                         c_vaultDepositors = vaultDepositors (vault_loop P cfg vaults 0 vault_init)\<rparr>)))"

section \<open>The sheet of vault top depositors\<close>

text \<open>
  A depositor as \<^verbatim>\<open>GetVaultDepositors\<close> returns it. The USD amounts are GraphQL floats
  or \<^verbatim>\<open>null\<close>.
\<close>

record tx_data =
  td_assetsUsd :: "real option"
  td_repaidAssetsUsd :: "real option"

record vault_tx =
  tx_hash :: string
  tx_data :: "tx_data option"

record depositor_user =
  du_address :: "string option"
  du_transactions :: "vault_tx list option"

record depositor =
  dp_user :: "depositor_user option"
  dp_assetsUsd :: "real option"

record depositor_row =
  vaultAddress :: string
  userAddress :: "string option"
  assetsUsd :: "real option"
  userTransactions :: "vault_tx list"

text \<open>
  \<^verbatim>\<open>
  const extractAssetsUsd = (tx) => {
    if (!tx.data) return 0;
    return parseFloat(tx.data.assetsUsd || tx.data.repaidAssetsUsd || 0);
  };
  \<close>
  \<^verbatim>\<open>a || b\<close> is \<open>a\<close> unless \<open>a\<close> is \<^verbatim>\<open>null\<close> or zero.
\<close>

definition number_or :: "real option \<Rightarrow> real \<Rightarrow> real" where
  "number_or a b = (case a of Some x \<Rightarrow> if x \<noteq> 0 then x else b | None \<Rightarrow> b)"

definition extractAssetsUsd :: "vault_tx \<Rightarrow> real" where
  "extractAssetsUsd tx =
     (case tx_data tx of
        None \<Rightarrow> 0
      | Some d \<Rightarrow> number_or (td_assetsUsd d) (number_or (td_repaidAssetsUsd d) 0))"

text \<open>
  \<^verbatim>\<open>
  const sortedTransactions = allTransactions.sort((a, b) => {
    return extractAssetsUsd(b) - extractAssetsUsd(a);
  });
  const top5Transactions = sortedTransactions.slice(0, 5);
  \<close>
  \<^verbatim>\<open>Array.prototype.sort\<close> is stable; with this comparison it orders by descending
  value and keeps transactions of equal value in their order of arrival.
\<close>

definition sortedTransactions :: "vault_tx list \<Rightarrow> vault_tx list" where
  "sortedTransactions allTransactions = sort_key (\<lambda>tx. - extractAssetsUsd tx) allTransactions"

definition top5Transactions :: "vault_tx list \<Rightarrow> vault_tx list" where
  "top5Transactions allTransactions = take 5 (sortedTransactions allTransactions)"

text \<open>
  \<^verbatim>\<open>
  for (const [va, items] of Object.entries(vaultDepositors)) {
    for (const it of items || []) {
      const allTransactions = it?.user?.transactions || [];
      ...
      sheets.morpho_vault_top_depositors.push({
        vaultAddress: va,
        userAddress: it?.user?.address,
        assetsUsd: it?.state?.assetsUsd,
        userTransactions: top5Transactions,
      });
    }
  }
  \<close>
\<close>

definition allTransactions_of :: "depositor \<Rightarrow> vault_tx list" where
  "allTransactions_of it =
     (case dp_user it of
        None \<Rightarrow> []
      | Some u \<Rightarrow> (case du_transactions u of None \<Rightarrow> [] | Some txs \<Rightarrow> txs))"

definition top_depositor_row :: "string \<Rightarrow> depositor \<Rightarrow> depositor_row" where
  "top_depositor_row va it =
     \<lparr>vaultAddress = va,
      userAddress = (case dp_user it of None \<Rightarrow> None | Some u \<Rightarrow> du_address u),
      assetsUsd = dp_assetsUsd it,
      userTransactions = top5Transactions (allTransactions_of it)\<rparr>"

definition morpho_vault_top_depositors :: "(string \<times> depositor list) list \<Rightarrow> depositor_row list" where
  "morpho_vault_top_depositors vd = concat (map (\<lambda>(va, its). map (top_depositor_row va) its) vd)"

section \<open>The stand-alone market data builder\<close>

text \<open>
  \<^verbatim>\<open>MorphoDataBuilder.buildCompleteDataset\<close> of \<^verbatim>\<open>get_morpho_data.js\<close>. Its three
  queries are parameters: the outcome of \<^verbatim>\<open>getAllMarkets()\<close>, of
  \<^verbatim>\<open>getTopBorrowersForMarket(key)\<close> and of \<^verbatim>\<open>getUserTransactions(address, key)\<close>.
  \<^verbatim>\<open>
  for (let j = 0; j < topBorrowers.length; j++) {
    const borrower = topBorrowers[j];
    console.log(`  Fetching ... ${borrower.user.address}`);
    try {
      const transactions = await this.getUserTransactions(borrower.user.address, market.uniqueKey);
      borrowersWithTransactions.push({ ...borrower, transactions });
    } catch (error) {
      borrowersWithTransactions.push({ ...borrower, transactions: [], error: error.message });
    }
  }
  \<close>
\<close>

fun error_message :: "error \<Rightarrow> string" where
  "error_message (TypeError m) = m"
| "error_message (HttpError st t b) = ''HTTP error''"
| "error_message (GraphQLHttpError st t b) = ''GraphQL HTTP error''"
| "error_message (GraphQLErrors m) = ''GraphQL errors: '' @ m"
| "error_message (NetworkError m) = m"
| "error_message (SyntaxError m) = m"

fun borrowersWithTransactions ::
  "(string option \<Rightarrow> string \<Rightarrow> error + 'tx list) \<Rightarrow> market \<Rightarrow> borrower list \<Rightarrow> 'tx enriched list
     \<Rightarrow> error + 'tx enriched list" where
  "borrowersWithTransactions getUserTransactions mkt [] acc = Inr acc"
| "borrowersWithTransactions getUserTransactions mkt (b # bs) acc =
     (case b_user b of
        None \<Rightarrow> Inl (TypeError ''Cannot read properties of null (reading address)'')
      | Some u \<Rightarrow>
          (case getUserTransactions (user_address u) (uniqueKey mkt) of
             Inr transactions \<Rightarrow>
               borrowersWithTransactions getUserTransactions mkt bs
                 (acc @ [\<lparr>en_borrower = b, en_transactions = transactions, en_error = None\<rparr>])
           | Inl e \<Rightarrow>
               borrowersWithTransactions getUserTransactions mkt bs
                 (acc @ [\<lparr>en_borrower = b, en_transactions = [], en_error = Some (error_message e)\<rparr>])))"

text \<open>
  \<^verbatim>\<open>
  if (!market.loanAsset || !market.collateralAsset) { continue; }
  try {
    const topBorrowers = await this.getTopBorrowersForMarket(market.uniqueKey);
    ... the loop over the borrowers ...
    this.allMarketsData.push({ market, topBorrowers: borrowersWithTransactions, fetchedAt });
  } catch (error) {
    this.allMarketsData.push({ market, topBorrowers: [], error: error.message, fetchedAt });
  }
  \<close>
\<close>

definition process_market ::
  "(string \<Rightarrow> error + borrower list) \<Rightarrow> (string option \<Rightarrow> string \<Rightarrow> error + 'tx list) \<Rightarrow> market \<Rightarrow> 'tx entry" where
  "process_market getTopBorrowersForMarket getUserTransactions mkt =
     (case (case getTopBorrowersForMarket (uniqueKey mkt) of
              Inl e \<Rightarrow> Inl e
            | Inr topBorrowers \<Rightarrow> borrowersWithTransactions getUserTransactions mkt topBorrowers []) of
        Inr bs \<Rightarrow> \<lparr>e_market = mkt, e_topBorrowers = bs, e_error = None\<rparr>
      | Inl e \<Rightarrow> \<lparr>e_market = mkt, e_topBorrowers = [], e_error = Some (error_message e)\<rparr>)"

fun allMarketsData ::
  "(string \<Rightarrow> error + borrower list) \<Rightarrow> (string option \<Rightarrow> string \<Rightarrow> error + 'tx list) \<Rightarrow> market list
     \<Rightarrow> 'tx entry list \<Rightarrow> 'tx entry list" where
  "allMarketsData getTop getTxs [] acc = acc"
| "allMarketsData getTop getTxs (mkt # mkts) acc =
     (if \<not> truthy (loanAsset mkt) \<or> \<not> truthy (collateralAsset mkt)
      then allMarketsData getTop getTxs mkts acc
      else allMarketsData getTop getTxs mkts (acc @ [process_market getTop getTxs mkt]))"

text \<open>
  \<^verbatim>\<open>
  try {
    const markets = await this.getAllMarkets();
    for (...) { ... }
    return this.allMarketsData;
  } catch (error) { throw error; }
  \<close>
\<close>

definition buildCompleteDataset ::
  "(error + market list) \<Rightarrow> (string \<Rightarrow> error + borrower list) \<Rightarrow> (string option \<Rightarrow> string \<Rightarrow> error + 'tx list)
     \<Rightarrow> error + 'tx entry list" where
  "buildCompleteDataset getAllMarkets getTopBorrowersForMarket getUserTransactions =
     (case getAllMarkets of
        Inl e \<Rightarrow> Inl e
      | Inr markets \<Rightarrow> Inr (allMarketsData getTopBorrowersForMarket getUserTransactions markets []))"

section \<open>Specification vocabulary\<close>

text \<open>
  A request function serves the list \<open>xs\<close> in well-formed pages of size \<open>P\<close> when every
  page holds the next (at most \<open>P\<close>) items from its offset and the first page reports the
  length of \<open>xs\<close> as the total.
\<close>

definition well_formed_pages :: "(nat \<Rightarrow> nat \<Rightarrow> error + 'a page option) \<Rightarrow> nat \<Rightarrow> 'a list \<Rightarrow> bool" where
  "well_formed_pages request P xs =
     ((\<forall>skip. \<exists>pg. request P skip = Inr (Some pg) \<and> page_items pg = take P (drop skip xs))
      \<and> (\<exists>pg. request P 0 = Inr (Some pg) \<and> page_total None pg = int (length xs)))"

text \<open>The number of pages of size \<open>P\<close> that hold \<open>T\<close> items, \<open>\<lceil>T / P\<rceil>\<close>.\<close>

definition pages_needed :: "nat \<Rightarrow> nat \<Rightarrow> nat" where
  "pages_needed T P = (T + P - 1) div P"

text \<open>
  Retryable outcomes. For the REST helper: a response with one of the five statuses. For
  \<^verbatim>\<open>gqlRequest\<close>: such a response, or a decoded body whose \<^verbatim>\<open>errors\<close> are present
  and whose text contains the transient pattern.
\<close>

definition transient_errors :: "(real \<Rightarrow> string) \<Rightarrow> http_response \<Rightarrow> bool" where
  "transient_errors shown res =
     (ok res \<and>
      (case parsed res of
         None \<Rightarrow> False
       | Some j \<Rightarrow>
           (case read_prop j ''errors'' of
              Inl e \<Rightarrow> False
            | Inr errs \<Rightarrow> truthy errs \<and> str_includes (JSON_stringify shown errs) ''Internal server error'')))"

definition gql_retryable :: "(real \<Rightarrow> string) \<Rightarrow> http_response \<Rightarrow> bool" where
  "gql_retryable shown res = (retryable_status (status res) \<or> transient_errors shown res)"

text \<open>The error each helper throws for a response it gives up on.\<close>

definition http_failure :: "http_response \<Rightarrow> error" where
  "http_failure res = HttpError (status res) (statusText res) (body res)"

definition errors_text :: "(real \<Rightarrow> string) \<Rightarrow> http_response \<Rightarrow> string" where
  "errors_text shown res =
     (case parsed res of
        None \<Rightarrow> []
      | Some j \<Rightarrow> (case read_prop j ''errors'' of Inl e \<Rightarrow> [] | Inr errs \<Rightarrow> JSON_stringify shown errs))"

definition gql_failure :: "(real \<Rightarrow> string) \<Rightarrow> http_response \<Rightarrow> error" where
  "gql_failure shown res =
     (if \<not> ok res then GraphQLHttpError (status res) (statusText res) (body res)
      else GraphQLErrors (errors_text shown res))"

text \<open>The sleep \<^verbatim>\<open>gqlRequest\<close> makes before it retries a retryable response of attempt \<open>k\<close>.\<close>

definition gql_retry_sleep :: "http_response \<Rightarrow> nat \<Rightarrow> io_event" where
  "gql_retry_sleep res k =
     (if \<not> ok res then gql_http_backoff k
      else if k < 3 then Sleep (200 * k) 0
      else gql_error_backoff k)"

text \<open>The trace of a run whose attempts \<open>m, \<dots>, n - 1\<close> were retried and whose attempt \<open>n\<close> ended it.\<close>

definition retry_trace :: "(nat \<Rightarrow> io_event) \<Rightarrow> nat \<Rightarrow> nat \<Rightarrow> io_event list" where
  "retry_trace pause m n = concat (map (\<lambda>k. [Fetch, pause k]) [m..<n]) @ [Fetch]"

text \<open>
  The provider has GraphQL errors to report: the response is a success whose decoded body
  has a truthy \<^verbatim>\<open>errors\<close> member.
\<close>

definition reports_errors :: "http_response \<Rightarrow> bool" where
  "reports_errors res =
     (ok res \<and>
      (case parsed res of
         None \<Rightarrow> False
       | Some j \<Rightarrow> (case read_prop j ''errors'' of Inl e \<Rightarrow> False | Inr errs \<Rightarrow> truthy errs)))"

text \<open>Example responses: an overloaded server, a transient and a permanent GraphQL error.\<close>

definition unavailable :: http_response where
  "unavailable = \<lparr>status = 503, statusText = ''Service Unavailable'', body = [], parsed = None\<rparr>"

definition internal_error_reply :: http_response where
  "internal_error_reply =
     \<lparr>status = 200, statusText = ''OK'', body = [],
      parsed = Some (JObj [(''errors'', JStr ''Internal server error'')])\<rparr>"

definition bad_query_reply :: http_response where
  "bad_query_reply =
     \<lparr>status = 200, statusText = ''OK'', body = [],
      parsed = Some (JObj [(''errors'', JStr ''Unknown field'')])\<rparr>"

definition not_found :: http_response where
  "not_found = \<lparr>status = 404, statusText = ''Not Found'', body = [], parsed = None\<rparr>"

text \<open>
  What \<^verbatim>\<open>buildCompleteDataset\<close> records for one borrower: the transactions, or no
  transaction and the message of the error.
\<close>

definition with_transactions ::
  "(string option \<Rightarrow> string \<Rightarrow> error + 'tx list) \<Rightarrow> market \<Rightarrow> borrower \<Rightarrow> 'tx enriched" where
  "with_transactions getUserTransactions mkt b =
     (case getUserTransactions (borrower_address b) (uniqueKey mkt) of
        Inr transactions \<Rightarrow> \<lparr>en_borrower = b, en_transactions = transactions, en_error = None\<rparr>
      | Inl e \<Rightarrow> \<lparr>en_borrower = b, en_transactions = [], en_error = Some (error_message e)\<rparr>)"

definition has_assets :: "market \<Rightarrow> bool" where
  "has_assets mkt = (truthy (loanAsset mkt) \<and> truthy (collateralAsset mkt))"

text \<open>The depositors recorded for a vault: the answer of the provider, or none when the request failed.\<close>

definition depositors_or_none :: "('tx, 'd) provider \<Rightarrow> string \<Rightarrow> 'd list" where
  "depositors_or_none P va =
     (case vaultPositions_request P va of
        Inl e \<Rightarrow> []
      | Inr None \<Rightarrow> []
      | Inr (Some ds) \<Rightarrow> ds)"

text \<open>
  Example data: the default configuration, six vaults, one market with one borrower, and
  providers whose requests fail for the vault positions, or for the market positions, or for
  nothing.
\<close>

definition default_config :: config where
  "default_config =
     \<lparr>morphoPageSize = 50, txPageSize = 200, rateLimitMs = 200, marketsLimit = None, testMode = False\<rparr>"

definition six_vaults :: "vault list" where
  "six_vaults =
     map (\<lambda>a. \<lparr>vault_address = a, v_fields = JNull\<rparr>) [''0xa'', ''0xb'', ''0xc'', ''0xd'', ''0xe'', ''0xf'']"

definition usdc_market :: market where
  "usdc_market =
     \<lparr>uniqueKey = ''0x01'',
      loanAsset = JObj [(''symbol'', JStr ''USDC'')],
      collateralAsset = JObj [(''symbol'', JStr ''WETH'')]\<rparr>"

definition alice :: borrower where
  "alice = \<lparr>b_user = Some \<lparr>user_address = Some ''0xa11ce''\<rparr>, b_fields = JNull\<rparr>"

definition healthy_provider :: "(nat, nat) provider" where
  "healthy_provider =
     \<lparr>markets_request = serve_pages [usdc_market],
      marketPositions_request = (\<lambda>k. Inr (Some [alice])),
      transactions_request = (\<lambda>a k. serve_pages [7, 8]),
      curatorsAndVaults_result = Inr ([], six_vaults),
      vaultPositions_request = (\<lambda>va. Inr (Some []))\<rparr>"

definition vaults_down_provider :: "(nat, nat) provider" where
  "vaults_down_provider =
     healthy_provider\<lparr>vaultPositions_request := (\<lambda>va. Inl (NetworkError ''fetch failed''))\<rparr>"

definition positions_down_provider :: "(nat, nat) provider" where
  "positions_down_provider =
     healthy_provider\<lparr>marketPositions_request := (\<lambda>k. Inl (NetworkError ''fetch failed''))\<rparr>"

text \<open>
  Example transactions: a direct USD amount, a repaid USD amount, a payload without USD field,
  no payload.
\<close>

definition tx_with_usd :: "string \<Rightarrow> real \<Rightarrow> vault_tx" where
  "tx_with_usd h a = \<lparr>tx_hash = h, tx_data = Some \<lparr>td_assetsUsd = Some a, td_repaidAssetsUsd = None\<rparr>\<rparr>"

definition tx_repaid :: "string \<Rightarrow> real \<Rightarrow> vault_tx" where
  "tx_repaid h a = \<lparr>tx_hash = h, tx_data = Some \<lparr>td_assetsUsd = None, td_repaidAssetsUsd = Some a\<rparr>\<rparr>"

definition tx_without_usd :: "string \<Rightarrow> vault_tx" where
  "tx_without_usd h = \<lparr>tx_hash = h, tx_data = Some \<lparr>td_assetsUsd = None, td_repaidAssetsUsd = None\<rparr>\<rparr>"

definition tx_without_data :: "string \<Rightarrow> vault_tx" where
  "tx_without_data h = \<lparr>tx_hash = h, tx_data = None\<rparr>"

definition seven_transactions :: "vault_tx list" where
  "seven_transactions =
     [tx_without_usd ''t1'', tx_with_usd ''t2'' 10, tx_without_data ''t3'', tx_with_usd ''t4'' 100,
      tx_without_usd ''t5'', tx_with_usd ''t6'' 50, tx_without_data ''t7'']"

text \<open>
  The words of the flattening contract. The dotted path of a field below a path; the paths of
  the leaves of a value (everything that is not an object is a leaf); scalars and records;
  the elements of a list in the order of their first occurrence.
\<close>

definition dotted :: "string \<Rightarrow> string \<Rightarrow> string" where
  "dotted p k = (if p \<noteq> [] then p @ ''.'' @ k else k)"










text \<open>A depositor of a vault who made the seven example transactions.\<close>

definition seven_tx_depositor :: depositor where
  "seven_tx_depositor =
     \<lparr>dp_user = Some \<lparr>du_address = Some ''0xd0'', du_transactions = Some seven_transactions\<rparr>,
      dp_assetsUsd = Some 160\<rparr>"








section \<open>Properties of object assignment\<close>






lemma map_of_obj_replace:
  "k \<in> fst ` set kvs \<Longrightarrow> map_of (obj_replace kvs k v) a = (if a = k then Some v else map_of kvs a)"
  by (induction kvs k v rule: obj_replace.induct) (auto simp: rev_image_eqI)

lemma map_of_insert_index:
  "k \<notin> fst ` set kvs \<Longrightarrow> map_of (insert_index n k v kvs) a = (if a = k then Some v else map_of kvs a)"
  by (induction n k v kvs rule: insert_index.induct) (auto split: option.splits)

lemma map_of_append_new:
  "k \<notin> fst ` set kvs \<Longrightarrow> map_of (kvs @ [(k, v)]) a = (if a = k then Some v else map_of kvs a)"
  by (induction kvs) auto

lemma map_of_obj_set:
  "map_of (obj_set kvs k v) a
     = (if k = ''__proto__'' then map_of kvs a else if a = k then Some v else map_of kvs a)"
proof (cases "k = ''__proto__''")
  case True
  then show ?thesis by (simp add: obj_set_def)
next
  case False
  show ?thesis
  proof (cases "k \<in> fst ` set kvs")
    case True
    then show ?thesis using False map_of_obj_replace [OF True, of v a] by (simp add: obj_set_def)
  next
    case nin: False
    show ?thesis
      using False nin map_of_insert_index [OF nin, of _ v a] map_of_append_new [OF nin, of v a]
      by (cases "array_index k") (simp_all only: obj_set_def if_False option.case)
  qed
qed

lemma array_index_not_digits: "\<not> list_all (\<lambda>c. c \<in> set ''0123456789'') s \<Longrightarrow> array_index s = None"
  by (simp add: array_index_def)

lemma obj_set_plain:
  "k \<noteq> ''__proto__'' \<Longrightarrow> k \<notin> fst ` set kvs \<Longrightarrow> \<not> list_all (\<lambda>c. c \<in> set ''0123456789'') k \<Longrightarrow>
     obj_set kvs k v = kvs @ [(k, v)]"
  by (simp add: obj_set_def array_index_not_digits)

lemma obj_set_proto: "obj_set kvs ''__proto__'' v = kvs"
  by (simp add: obj_set_def)

section \<open>Properties of the address extractor\<close>

lemma toLowerCase_length: "length (toLowerCase s) = length s"
  by (simp add: toLowerCase_def)

lemma normalizeAddress_string: "normalizeAddress (JStr s) = Inr (toLowerCase s)"
  by simp

lemma extractPtAddress_string_total:
  "extractPtAddressFromPendleActive (JStr s) = Inr (toLowerCase (last (split_on CHR ''-'' s)))"
  by simp

text \<open>
  C9. The extractor is meant to answer every input with a lowercase address or the empty
  string. It does so on strings, on \<^verbatim>\<open>null\<close> and on the other scalars, but not on an
  object whose \<^verbatim>\<open>address\<close>, \<^verbatim>\<open>token\<close> or \<^verbatim>\<open>id\<close> is a truthy value that is not a
  string: \<^verbatim>\<open>normalizeAddress\<close> then calls \<^verbatim>\<open>toLowerCase\<close> on it, and for
  \<^verbatim>\<open>{ id: 42 }\<close> the call raises a \<^verbatim>\<open>TypeError\<close>.
\<close>

theorem extractPtAddress_numeric_id_throws:
  "extractPtAddressFromPendleActive (JObj [(''id'', JNum 42)])
     = Inl (TypeError ''toLowerCase is not a function'')"
  by simp

section \<open>Properties of the flattener\<close>



section \<open>Properties of the paginated fetchers\<close>

lemma pages_needed_step:
  assumes "0 < P" "P < n"
  shows "Suc (pages_needed (n - P) P) = pages_needed n P"
proof -
  have "n + P - 1 = (n - P + P - 1) + P" using assms by simp
  then have "(n + P - 1) div P = (n - P + P - 1) div P + 1"
    using assms by (metis div_add_self2 less_numeral_extra(3))
  then show ?thesis by (simp add: pages_needed_def)
qed

lemma pages_needed_one:
  assumes "0 < n" "n \<le> P"
  shows "pages_needed n P = 1"
proof -
  obtain m where m: "n = Suc m" using assms by (cases n) auto
  have "(m + P) div P = 1 + m div P" using assms by simp
  moreover have "m div P = 0" using assms m by simp
  ultimately show ?thesis using m by (simp add: pages_needed_def)
qed

lemma paginate_loop_well_formed:
  assumes pages: "\<forall>skip. \<exists>pg. request P skip = Inr (Some pg) \<and> page_items pg = take P (drop skip xs)"
    and P: "0 < P"
  shows "skip < length xs \<Longrightarrow>
     paginate request P skip out (Some (int (length xs))) calls
       = Inr (out @ drop skip xs, calls + pages_needed (length xs - skip) P)"
proof (induction "length xs - skip" arbitrary: skip out calls rule: less_induct)
  case less
  obtain pg where pg: "request P skip = Inr (Some pg)" "page_items pg = take P (drop skip xs)"
    using pages by blast
  let ?n = "length xs - skip"
  have len: "length (page_items pg) = min P ?n" using pg by simp
  have ne: "page_items pg \<noteq> []" using less.prems P pg by simp
  show ?case
  proof (cases "?n \<le> P")
    case True
    then have "page_items pg = drop skip xs" using pg by simp
    moreover have "int (length xs) \<le> int (skip + length (page_items pg))"
      using True len less.prems by simp
    moreover have "pages_needed ?n P = 1" using True less.prems by (simp add: pages_needed_one)
    ultimately show ?thesis
      using pg by (subst paginate.simps) (simp add: page_total_def)
  next
    case False
    then have lenP: "length (page_items pg) = P" using len by simp
    have cont: "\<not> int (length xs) \<le> int (skip + length (page_items pg))"
      using False lenP by simp
    have lt: "skip + P < length xs" using False by simp
    have IH: "paginate request P (skip + P) (out @ page_items pg) (Some (int (length xs))) (calls + 1)
       = Inr ((out @ page_items pg) @ drop (skip + P) xs, (calls + 1) + pages_needed (length xs - (skip + P)) P)"
      using less.hyps [of "skip + P"] lt P by simp
    have app: "page_items pg @ drop (skip + P) xs = drop skip xs"
      using pg by (metis add.commute append_take_drop_id drop_drop)
    have cnt: "Suc (pages_needed (length xs - (skip + P)) P) = pages_needed ?n P"
      using pages_needed_step [of P ?n] P False by (simp add: add.commute)
    show ?thesis
      using pg(1) ne cont IH app cnt lenP
      by (subst paginate.simps) (simp add: page_total_def)
  qed
qed

lemma paginate_well_formed_aux:
  assumes wf: "well_formed_pages request P xs" and P: "0 < P"
  shows "paginate request P 0 [] None 0 = Inr (xs, max 1 (pages_needed (length xs) P))"
proof -
  from wf obtain pg where pg: "request P 0 = Inr (Some pg)" "page_total None pg = int (length xs)"
    unfolding well_formed_pages_def by blast
  from wf have pages: "\<forall>skip. \<exists>pg. request P skip = Inr (Some pg) \<and> page_items pg = take P (drop skip xs)"
    unfolding well_formed_pages_def by blast
  then have its: "page_items pg = take P xs" using pg by (metis drop0 option.inject sum.inject(2))
  show ?thesis
  proof (cases "length xs \<le> P")
    case True
    then have all: "page_items pg = xs" using its by simp
    have "max 1 (pages_needed (length xs) P) = 1"
    proof (cases "xs = []")
      case True then show ?thesis using P by (simp add: pages_needed_def)
    next
      case False then show ?thesis using True by (simp add: pages_needed_one)
    qed
    then show ?thesis using pg all by (subst paginate.simps) simp
  next
    case False
    then have lenP: "length (page_items pg) = P" using its by simp
    have ne: "page_items pg \<noteq> []" using lenP P by auto
    have loop: "paginate request P P (page_items pg) (Some (int (length xs))) 1
        = Inr (page_items pg @ drop P xs, 1 + pages_needed (length xs - P) P)"
      using paginate_loop_well_formed [where request = request and P = P and xs = xs and skip = P
          and out = "page_items pg" and calls = 1] pages P False by simp
    have cnt: "Suc (pages_needed (length xs - P) P) = pages_needed (length xs) P"
      using pages_needed_step [of P "length xs"] P False by simp
    have pos: "1 \<le> pages_needed (length xs) P" using cnt by linarith
    have app: "page_items pg @ drop P xs = xs" using its by simp
    show ?thesis
      using pg ne lenP False loop cnt pos app
      by (subst paginate.simps) (simp add: max_def)
  qed
qed

lemma paginate_empty_page_stops:
  assumes "request first skip = Inr (Some pg)" "page_items pg = []"
  shows "paginate request first skip out tot calls = Inr (out, calls + 1)"
  using assms by (subst paginate.simps) simp

lemma serve_pages_well_formed: "well_formed_pages (serve_pages xs) P xs"
  by (simp add: well_formed_pages_def serve_pages_def page_items_def page_total_def)

text \<open>
  C1 (as amended). When the provider serves a list of \<open>T\<close> items in well-formed pages of
  size \<open>P > 0\<close>, the loop returns exactly these items in their order and makes
  \<open>max 1 \<lceil>T / P\<rceil>\<close> requests: one request is made even when there is nothing to
  fetch. \<^verbatim>\<open>fetchAllUserTransactionsForMarket\<close> and \<^verbatim>\<open>fetchAllMorphoMarkets\<close>
  (without a market limit) return the list. Whatever the provider and whatever total was
  reported, a page without items ends the loop at once.
\<close>

theorem paginate_well_formed:
  assumes "0 < P" and "well_formed_pages request P xs"
  shows "paginate request P 0 [] None 0 = Inr (xs, max 1 (pages_needed (length xs) P))
       \<and> fetchAllUserTransactionsForMarket request P = Inr xs
       \<and> fetchAllMorphoMarkets request P None = Inr xs
       \<and> (\<forall>request' first skip pg out tot calls.
            request' first skip = Inr (Some pg) \<longrightarrow> page_items pg = [] \<longrightarrow>
            paginate request' first skip out tot calls = Inr (out, calls + 1))"
proof -
  have run: "paginate request P 0 [] None 0 = Inr (xs, max 1 (pages_needed (length xs) P))"
    by (rule paginate_well_formed_aux [OF assms(2) assms(1)])
  have txs: "fetchAllUserTransactionsForMarket request P = Inr xs"
    by (simp add: fetchAllUserTransactionsForMarket_def run)
  have mkts: "fetchAllMorphoMarkets request P None = Inr xs"
    by (simp add: fetchAllMorphoMarkets_def run)
  show ?thesis
    using run txs mkts paginate_empty_page_stops by blast
qed

theorem paginate_well_formed_witness:
  "(0::nat) < 2 \<and> well_formed_pages (serve_pages [10, 20, 30::nat]) 2 [10, 20, 30]
   \<and> paginate (serve_pages [10, 20, 30::nat]) 2 0 [] None 0 = Inr ([10, 20, 30], 2)
   \<and> fetchAllUserTransactionsForMarket (serve_pages [10, 20, 30::nat]) 2 = Inr [10, 20, 30]
   \<and> paginate (\<lambda>first skip. Inr (Some \<lparr>items = Some ([]::nat list), countTotal = Some 7\<rparr>)) 2 0 [] None 0
        = Inr ([], 1)"
proof -
  have wf: "well_formed_pages (serve_pages [10, 20, 30::nat]) 2 [10, 20, 30]"
    by (rule serve_pages_well_formed)
  have pos: "(0::nat) < 2" by simp
  have pn: "max 1 (pages_needed (length [10, 20, 30::nat]) 2) = 2"
    by (simp add: pages_needed_def)
  have e: "page_items \<lparr>items = Some ([]::nat list), countTotal = Some 7\<rparr> = []"
    by (simp add: page_items_def)
  have stop: "paginate (\<lambda>first skip. Inr (Some \<lparr>items = Some ([]::nat list), countTotal = Some 7\<rparr>)) 2 0 [] None 0
        = Inr ([], 1)"
    using paginate_well_formed [OF pos wf, THEN conjunct2, THEN conjunct2, THEN conjunct2, rule_format,
        of "\<lambda>first skip. Inr (Some \<lparr>items = Some ([]::nat list), countTotal = Some 7\<rparr>)" 2 0
           "\<lparr>items = Some ([]::nat list), countTotal = Some 7\<rparr>" "[]" None 0] e
    by simp
  have run: "paginate (serve_pages [10, 20, 30::nat]) 2 0 [] None 0 = Inr ([10, 20, 30], 2)"
    using paginate_well_formed [OF pos wf, THEN conjunct1] pn by simp
  have txs: "fetchAllUserTransactionsForMarket (serve_pages [10, 20, 30::nat]) 2 = Inr [10, 20, 30]"
    using paginate_well_formed [OF pos wf, THEN conjunct2, THEN conjunct1] by simp
  show ?thesis
    using pos wf run txs stop by simp
qed

text \<open>
  The claim as stated bounds the requests by \<open>\<lceil>T / P\<rceil>\<close>; with no item to fetch
  (\<open>T = 0\<close>) that bound is zero, and the loop makes one request.
\<close>

theorem paginate_empty_list_counterexample:
  "well_formed_pages (serve_pages ([]::nat list)) 50 []
   \<and> paginate (serve_pages ([]::nat list)) 50 0 [] None 0 = Inr ([], 1)
   \<and> \<not> (1::nat) \<le> pages_needed (length ([]::nat list)) 50"
proof -
  have "paginate (serve_pages ([]::nat list)) 50 0 [] None 0 = Inr ([], 1)"
    by (subst paginate.simps) (simp add: serve_pages_def page_items_def)
  then show ?thesis
    by (simp add: serve_pages_well_formed pages_needed_def)
qed

section \<open>Properties of the network helpers\<close>

lemma retryable_not_ok: "retryable_status (status res) \<Longrightarrow> \<not> ok res"
  by (auto simp: retryable_status_def ok_def)

lemma retry_trace_last: "retry_trace pause n n = [Fetch]"
  by (simp add: retry_trace_def)

lemma retry_trace_step: "k < n \<Longrightarrow> retry_trace pause k n = Fetch # pause k # retry_trace pause (Suc k) n"
  by (simp add: retry_trace_def upt_conv_Cons)

lemma fetches_retry_trace:
  assumes "\<And>k. pause k \<noteq> Fetch" shows "k \<le> n \<Longrightarrow> fetches (retry_trace pause k n) = n - k + 1"
proof (induction "n - k" arbitrary: k)
  case 0
  then show ?case by (simp add: retry_trace_last fetches_def)
next
  case (Suc d)
  then have "k < n" by simp
  moreover have "fetches (retry_trace pause (Suc k) n) = n - Suc k + 1" using Suc by simp
  ultimately show ?case using assms [of k] by (simp add: retry_trace_step fetches_def)
qed

lemma sleeps_retry_trace:
  assumes "\<And>k. pause k \<noteq> Fetch" shows "k \<le> n \<Longrightarrow> sleeps (retry_trace pause k n) = map pause [k..<n]"
proof (induction "n - k" arbitrary: k)
  case 0
  then show ?case by (simp add: retry_trace_last sleeps_def)
next
  case (Suc d)
  then have "k < n" by simp
  moreover have "sleeps (retry_trace pause (Suc k) n) = map pause [Suc k..<n]" using Suc by simp
  ultimately show ?case using assms [of k] by (simp add: retry_trace_step sleeps_def upt_conv_Cons)
qed

lemma fetchJsonWithRetry_exhausts:
  assumes retry: "\<forall>k. retryable_status (status (resp k))"
  shows "tryNum \<le> maxRetries \<Longrightarrow>
     fetchJsonWithRetry maxRetries (\<lambda>k. Inr (resp k)) tryNum
       = (Inl (http_failure (resp maxRetries)), retry_trace http_backoff tryNum maxRetries)"
proof (induction "maxRetries - tryNum" arbitrary: tryNum)
  case 0
  then have "tryNum = maxRetries" by simp
  then show ?case
    using retry retryable_not_ok [of "resp maxRetries"]
    by (subst fetchJsonWithRetry.simps) (simp add: http_failure_def retry_trace_last)
next
  case (Suc d)
  then have lt: "tryNum < maxRetries" by simp
  have IH: "fetchJsonWithRetry maxRetries (\<lambda>k. Inr (resp k)) (tryNum + 1)
       = (Inl (http_failure (resp maxRetries)), retry_trace http_backoff (Suc tryNum) maxRetries)"
    using Suc.hyps(1) [of "tryNum + 1"] Suc.hyps(2) lt by simp
  show ?case
    using retry retryable_not_ok [of "resp tryNum"] lt IH
    by (subst fetchJsonWithRetry.simps) (simp add: retry_trace_step)
qed

lemma transient_errors_ok: "transient_errors shown res \<Longrightarrow> ok res"
  by (simp add: transient_errors_def)

lemma gqlRequest_retry_step:
  assumes "gql_retryable shown res" "exec tryNum = Inr res"
    and "tryNum < maxRetries \<or> (ok res \<and> tryNum < 3)"
  shows "gqlRequest shown maxRetries rl exec tryNum
       = (case gqlRequest shown maxRetries rl exec (tryNum + 1) of
            (r, tr) \<Rightarrow> (r, Fetch # gql_retry_sleep res tryNum # tr))"
proof (cases "ok res")
  case False
  then have "retryable_status (status res)" "tryNum < maxRetries"
    using assms transient_errors_ok by (auto simp: gql_retryable_def)
  then show ?thesis using False assms(2)
    by (subst gqlRequest.simps) (simp add: gql_retry_sleep_def)
next
  case True
  then have "transient_errors shown res" using assms(1) retryable_not_ok by (auto simp: gql_retryable_def)
  then obtain j errs where j: "parsed res = Some j" "read_prop j ''errors'' = Inr errs" "truthy errs"
      "str_includes (JSON_stringify shown errs) ''Internal server error''"
    by (auto simp: transient_errors_def split: option.splits sum.splits)
  show ?thesis using True assms(2,3) j
    by (subst gqlRequest.simps) (auto simp: gql_retry_sleep_def)
qed

lemma gqlRequest_give_up:
  assumes "gql_retryable shown res" "exec tryNum = Inr res" "maxRetries \<le> tryNum" "3 \<le> tryNum"
  shows "gqlRequest shown maxRetries rl exec tryNum = (Inl (gql_failure shown res), [Fetch])"
proof (cases "ok res")
  case False
  then show ?thesis using assms
    by (subst gqlRequest.simps) (simp add: gql_failure_def)
next
  case True
  then have "transient_errors shown res" using assms(1) retryable_not_ok by (auto simp: gql_retryable_def)
  then obtain j errs where j: "parsed res = Some j" "read_prop j ''errors'' = Inr errs" "truthy errs"
    by (auto simp: transient_errors_def split: option.splits sum.splits)
  show ?thesis using True assms j
    by (subst gqlRequest.simps) (simp add: gql_failure_def errors_text_def)
qed

lemma gqlRequest_exhausts:
  assumes retry: "\<forall>k. gql_retryable shown (resp k)" and three: "3 \<le> maxRetries"
  shows "tryNum \<le> maxRetries \<Longrightarrow>
     gqlRequest shown maxRetries rl (\<lambda>k. Inr (resp k)) tryNum
       = (Inl (gql_failure shown (resp maxRetries)),
          retry_trace (\<lambda>k. gql_retry_sleep (resp k) k) tryNum maxRetries)"
proof (induction "maxRetries - tryNum" arbitrary: tryNum)
  case 0
  then have "tryNum = maxRetries" by simp
  then show ?case
    using gqlRequest_give_up [of shown "resp maxRetries" "\<lambda>k. Inr (resp k)" maxRetries maxRetries rl] retry three
    by (simp add: retry_trace_last)
next
  case (Suc d)
  then have lt: "tryNum < maxRetries" by simp
  have IH: "gqlRequest shown maxRetries rl (\<lambda>k. Inr (resp k)) (tryNum + 1)
       = (Inl (gql_failure shown (resp maxRetries)),
          retry_trace (\<lambda>k. gql_retry_sleep (resp k) k) (Suc tryNum) maxRetries)"
    using Suc.hyps(1) [of "tryNum + 1"] Suc.hyps(2) lt by simp
  show ?case
    using gqlRequest_retry_step [of shown "resp tryNum" "\<lambda>k. Inr (resp k)" tryNum maxRetries rl] retry lt IH
    by (simp add: retry_trace_step)
qed

lemma http_backoff_mono:
  assumes "0 \<le> r'" "r < 1" "1000 * 2 ^ k < (30000::nat)"
  shows "delay_ms (http_backoff k) r \<le> delay_ms (http_backoff (Suc k)) r'"
proof -
  have a: "min (1000 * 2 ^ k) (30000::nat) = 1000 * 2 ^ k" using assms by simp
  have "1000 * 2 ^ k + 1000 \<le> min (1000 * 2 ^ Suc k) (30000::nat)" using assms by simp
  then have "real (1000 * 2 ^ k + 1000) \<le> real (min (1000 * 2 ^ Suc k) (30000::nat))"
    by (rule of_nat_mono)
  then have b: "real (1000 * 2 ^ k) + 1000 \<le> real (min (1000 * 2 ^ Suc k) (30000::nat))"
    by simp
  have c: "r * 1000 \<le> 1000" using assms by simp
  have d: "0 \<le> r' * 1000" using assms by simp
  have "real (1000 * 2 ^ k) + r * 1000 \<le> real (min (1000 * 2 ^ Suc k) (30000::nat)) + r' * 1000"
    using b c d by linarith
  then show ?thesis by (simp only: http_backoff_def delay_ms.simps a of_nat_numeral)
qed

lemma gql_http_backoff_mono:
  assumes "0 \<le> r'" "r < 1" "1500 * 2 ^ k < (45000::nat)"
  shows "delay_ms (gql_http_backoff k) r \<le> delay_ms (gql_http_backoff (Suc k)) r'"
proof -
  have a: "min (1500 * 2 ^ k) (45000::nat) = 1500 * 2 ^ k" using assms by simp
  have "1500 * 2 ^ k + 1500 \<le> min (1500 * 2 ^ Suc k) (45000::nat)" using assms by simp
  then have "real (1500 * 2 ^ k + 1500) \<le> real (min (1500 * 2 ^ Suc k) (45000::nat))"
    by (rule of_nat_mono)
  then have b: "real (1500 * 2 ^ k) + 1500 \<le> real (min (1500 * 2 ^ Suc k) (45000::nat))"
    by simp
  have c: "r * 1500 \<le> 1500" using assms by simp
  have d: "0 \<le> r' * 1500" using assms by simp
  have "real (1500 * 2 ^ k) + r * 1500 \<le> real (min (1500 * 2 ^ Suc k) (45000::nat)) + r' * 1500"
    using b c d by linarith
  then show ?thesis by (simp only: gql_http_backoff_def delay_ms.simps a of_nat_numeral)
qed

lemma gql_error_backoff_mono:
  assumes "0 \<le> r'" "r < 1"
  shows "delay_ms (gql_error_backoff k) r \<le> delay_ms (gql_error_backoff (Suc k)) r'"
proof -
  have "(1::nat) \<le> 2 ^ k" by simp
  then have "(2000::nat) * 1 \<le> 2000 * 2 ^ k" by (rule mult_le_mono2)
  then have "2000 * 2 ^ k + 1000 \<le> (2000::nat) * 2 ^ Suc k" by simp
  then have "real (2000 * 2 ^ k + 1000) \<le> real (2000 * 2 ^ Suc k)"
    by (rule of_nat_mono)
  then have b: "real (2000 * 2 ^ k) + 1000 \<le> real (2000 * 2 ^ Suc k)"
    by simp
  have c: "r * 1000 \<le> 1000" using assms by simp
  have d: "0 \<le> r' * 1000" using assms by simp
  have "real (2000 * 2 ^ k) + r * 1000 \<le> real (2000 * 2 ^ Suc k) + r' * 1000"
    using b c d by linarith
  then show ?thesis by (simp only: gql_error_backoff_def delay_ms.simps of_nat_numeral)
qed

lemma gql_error_sleep_mono:
  assumes "ok res" "ok res'" "0 \<le> r'" "r < 1"
  shows "delay_ms (gql_retry_sleep res k) r \<le> delay_ms (gql_retry_sleep res' (Suc k)) r'"
proof -
  consider "Suc k < 3" | "k = 2" | "3 \<le> k" by linarith
  then show ?thesis
  proof cases
    case 1
    then show ?thesis using assms by (simp add: gql_retry_sleep_def)
  next
    case 2
    have "0 \<le> r' * 1000" using assms by simp
    then show ?thesis using assms 2 by (simp add: gql_retry_sleep_def gql_error_backoff_def)
  next
    case 3
    then show ?thesis
      using assms gql_error_backoff_mono [of r' r k] by (simp add: gql_retry_sleep_def)
  qed
qed

lemma http_backoff_base: "delay_ms (http_backoff k) 0 \<le> delay_ms (http_backoff (Suc k)) 0
    \<and> delay_ms (http_backoff k) 0 \<le> 30000"
  by (simp add: http_backoff_def)

lemma gql_http_backoff_base: "delay_ms (gql_http_backoff k) 0 \<le> delay_ms (gql_http_backoff (Suc k)) 0
    \<and> delay_ms (gql_http_backoff k) 0 \<le> 45000"
  by (simp add: gql_http_backoff_def)

lemma http_backoff_not_fetch: "http_backoff k \<noteq> Fetch"
  by (simp add: http_backoff_def)

lemma gql_retry_sleep_not_fetch: "gql_retry_sleep res k \<noteq> Fetch"
  by (simp add: gql_retry_sleep_def gql_http_backoff_def gql_error_backoff_def)

text \<open>
  C3 (as amended). Let every attempt yield a retryable outcome and let the retry budget be
  at least 1. \<^verbatim>\<open>fetchJsonWithRetry\<close> calls the executor exactly \<open>maxRetries\<close> times and
  then throws the error of the last response; \<^verbatim>\<open>gqlRequest\<close> does the same whenever
  \<open>maxRetries\<close> is at least 3 (as with the default 5). The pauses are those of
  \<open>http_backoff\<close> and of \<open>gql_retry_sleep\<close>. Within each kind of retry the delay does not
  decrease from one attempt to the next while the doubled base is below its cap, whatever
  the jitter; the base delay never decreases and never exceeds the cap.
\<close>

theorem retry_exhaustion:
  assumes "1 \<le> maxRetries"
  shows "((\<forall>k. retryable_status (status (resp k))) \<longrightarrow>
            fetchJsonWithRetry maxRetries (\<lambda>k. Inr (resp k)) 1
              = (Inl (http_failure (resp maxRetries)), retry_trace http_backoff 1 maxRetries)
            \<and> fetches (retry_trace http_backoff 1 maxRetries) = maxRetries
            \<and> sleeps (retry_trace http_backoff 1 maxRetries) = map http_backoff [1..<maxRetries])
       \<and> ((\<forall>k. gql_retryable shown (resp k)) \<longrightarrow> 3 \<le> maxRetries \<longrightarrow>
            gqlRequest shown maxRetries rl (\<lambda>k. Inr (resp k)) 1
              = (Inl (gql_failure shown (resp maxRetries)),
                 retry_trace (\<lambda>k. gql_retry_sleep (resp k) k) 1 maxRetries)
            \<and> fetches (retry_trace (\<lambda>k. gql_retry_sleep (resp k) k) 1 maxRetries) = maxRetries
            \<and> sleeps (retry_trace (\<lambda>k. gql_retry_sleep (resp k) k) 1 maxRetries)
                = map (\<lambda>k. gql_retry_sleep (resp k) k) [1..<maxRetries])
       \<and> (\<forall>k r r'. 0 \<le> r' \<longrightarrow> r < 1 \<longrightarrow>
            (1000 * 2 ^ k < (30000::nat) \<longrightarrow>
               delay_ms (http_backoff k) r \<le> delay_ms (http_backoff (Suc k)) r')
            \<and> (1500 * 2 ^ k < (45000::nat) \<longrightarrow>
               delay_ms (gql_http_backoff k) r \<le> delay_ms (gql_http_backoff (Suc k)) r')
            \<and> (\<forall>res res'. ok res \<longrightarrow> ok res' \<longrightarrow>
               delay_ms (gql_retry_sleep res k) r \<le> delay_ms (gql_retry_sleep res' (Suc k)) r'))
       \<and> (\<forall>k. delay_ms (http_backoff k) 0 \<le> delay_ms (http_backoff (Suc k)) 0
              \<and> delay_ms (http_backoff k) 0 \<le> 30000
              \<and> delay_ms (gql_http_backoff k) 0 \<le> delay_ms (gql_http_backoff (Suc k)) 0
              \<and> delay_ms (gql_http_backoff k) 0 \<le> 45000)"
proof -
  have rest: "(\<forall>k. retryable_status (status (resp k))) \<longrightarrow>
            fetchJsonWithRetry maxRetries (\<lambda>k. Inr (resp k)) 1
              = (Inl (http_failure (resp maxRetries)), retry_trace http_backoff 1 maxRetries)
            \<and> fetches (retry_trace http_backoff 1 maxRetries) = maxRetries
            \<and> sleeps (retry_trace http_backoff 1 maxRetries) = map http_backoff [1..<maxRetries]"
    using assms fetchJsonWithRetry_exhausts [of resp 1 maxRetries]
      fetches_retry_trace [of http_backoff 1 maxRetries, OF http_backoff_not_fetch]
      sleeps_retry_trace [of http_backoff 1 maxRetries, OF http_backoff_not_fetch]
    by simp
  have gql: "(\<forall>k. gql_retryable shown (resp k)) \<longrightarrow> 3 \<le> maxRetries \<longrightarrow>
            gqlRequest shown maxRetries rl (\<lambda>k. Inr (resp k)) 1
              = (Inl (gql_failure shown (resp maxRetries)),
                 retry_trace (\<lambda>k. gql_retry_sleep (resp k) k) 1 maxRetries)
            \<and> fetches (retry_trace (\<lambda>k. gql_retry_sleep (resp k) k) 1 maxRetries) = maxRetries
            \<and> sleeps (retry_trace (\<lambda>k. gql_retry_sleep (resp k) k) 1 maxRetries)
                = map (\<lambda>k. gql_retry_sleep (resp k) k) [1..<maxRetries]"
    using assms gqlRequest_exhausts [of shown resp maxRetries 1 rl]
      fetches_retry_trace [of "\<lambda>k. gql_retry_sleep (resp k) k" 1 maxRetries, OF gql_retry_sleep_not_fetch]
      sleeps_retry_trace [of "\<lambda>k. gql_retry_sleep (resp k) k" 1 maxRetries, OF gql_retry_sleep_not_fetch]
    by simp
  have mono: "\<forall>k r r'. 0 \<le> r' \<longrightarrow> r < 1 \<longrightarrow>
            (1000 * 2 ^ k < (30000::nat) \<longrightarrow>
               delay_ms (http_backoff k) r \<le> delay_ms (http_backoff (Suc k)) r')
            \<and> (1500 * 2 ^ k < (45000::nat) \<longrightarrow>
               delay_ms (gql_http_backoff k) r \<le> delay_ms (gql_http_backoff (Suc k)) r')
            \<and> (\<forall>res res'. ok res \<longrightarrow> ok res' \<longrightarrow>
               delay_ms (gql_retry_sleep res k) r \<le> delay_ms (gql_retry_sleep res' (Suc k)) r')"
    using http_backoff_mono gql_http_backoff_mono gql_error_sleep_mono by blast
  have base: "\<forall>k. delay_ms (http_backoff k) 0 \<le> delay_ms (http_backoff (Suc k)) 0
              \<and> delay_ms (http_backoff k) 0 \<le> 30000
              \<and> delay_ms (gql_http_backoff k) 0 \<le> delay_ms (gql_http_backoff (Suc k)) 0
              \<and> delay_ms (gql_http_backoff k) 0 \<le> 45000"
    using http_backoff_base gql_http_backoff_base by blast
  show ?thesis
    using rest gql mono base by (intro conjI)
qed

theorem retry_exhaustion_witness:
  "(1::nat) \<le> 5 \<and> retryable_status (status unavailable) \<and> (3::nat) \<le> 5
   \<and> gql_retryable (\<lambda>r. []) internal_error_reply
   \<and> fetchJsonWithRetry 5 (\<lambda>k. Inr unavailable) 1
        = (Inl (HttpError 503 ''Service Unavailable'' []),
           [Fetch, Sleep 2000 1000, Fetch, Sleep 4000 1000, Fetch, Sleep 8000 1000,
            Fetch, Sleep 16000 1000, Fetch])
   \<and> fetches (retry_trace http_backoff 1 5) = 5
   \<and> gqlRequest (\<lambda>r. []) 5 200 (\<lambda>k. Inr internal_error_reply) 1
        = (Inl (GraphQLErrors (json_quote ''Internal server error'')),
           [Fetch, Sleep 200 0, Fetch, Sleep 400 0, Fetch, Sleep 16000 1000,
            Fetch, Sleep 32000 1000, Fetch])
   \<and> delay_ms (http_backoff 3) (9 / 10) \<le> delay_ms (http_backoff 4) 0"
proof -
  have five: "(1::nat) \<le> 5" by simp
  have st: "\<forall>k::nat. retryable_status (status unavailable)"
    by (simp add: retryable_status_def unavailable_def)
  have tr: "\<forall>k::nat. gql_retryable (\<lambda>r. []) internal_error_reply"
    by (simp add: gql_retryable_def transient_errors_def internal_error_reply_def ok_def
        json_quote_def json_escape_char_def)
  note th = retry_exhaustion [OF five, of "\<lambda>k. unavailable" "\<lambda>r. []" 200]
  note th' = retry_exhaustion [OF five, of "\<lambda>k. internal_error_reply" "\<lambda>r. []" 200]
  have t1: "retry_trace http_backoff 1 5
      = [Fetch, Sleep 2000 1000, Fetch, Sleep 4000 1000, Fetch, Sleep 8000 1000,
         Fetch, Sleep 16000 1000, Fetch]"
    by (simp add: retry_trace_def http_backoff_def upt_conv_Cons)
  have t2: "retry_trace (\<lambda>k. gql_retry_sleep internal_error_reply k) 1 5
      = [Fetch, Sleep 200 0, Fetch, Sleep 400 0, Fetch, Sleep 16000 1000,
         Fetch, Sleep 32000 1000, Fetch]"
    by (simp add: retry_trace_def gql_retry_sleep_def gql_error_backoff_def
        internal_error_reply_def ok_def upt_conv_Cons)
  have a: "fetchJsonWithRetry 5 (\<lambda>k. Inr unavailable) 1
        = (Inl (HttpError 503 ''Service Unavailable'' []),
           [Fetch, Sleep 2000 1000, Fetch, Sleep 4000 1000, Fetch, Sleep 8000 1000,
            Fetch, Sleep 16000 1000, Fetch])"
    using th [THEN conjunct1] st t1 by (simp add: http_failure_def unavailable_def)
  have b: "fetches (retry_trace http_backoff 1 5) = 5"
    using th [THEN conjunct1] st by simp
  have c: "gqlRequest (\<lambda>r. []) 5 200 (\<lambda>k. Inr internal_error_reply) 1
        = (Inl (GraphQLErrors (json_quote ''Internal server error'')),
           [Fetch, Sleep 200 0, Fetch, Sleep 400 0, Fetch, Sleep 16000 1000,
            Fetch, Sleep 32000 1000, Fetch])"
    using th' [THEN conjunct2, THEN conjunct1] tr t2
    by (simp add: gql_failure_def errors_text_def internal_error_reply_def ok_def)
  have d: "delay_ms (http_backoff 3) (9 / 10) \<le> delay_ms (http_backoff 4) 0"
    using th [THEN conjunct2, THEN conjunct2, THEN conjunct1, rule_format, of 0 "9 / 10" 3]
    by simp
  show ?thesis
    using five st tr a b c d by simp
qed

text \<open>
  The claim as stated fails for \<^verbatim>\<open>gqlRequest\<close> with a budget below 3: a response with
  GraphQL errors is retried on the first and on the second attempt whatever the budget, so
  with \<open>maxRetries = 1\<close> the executor is called three times.
\<close>

theorem retry_small_budget_counterexample:
  "gql_retryable (\<lambda>r. []) internal_error_reply
   \<and> fetches (snd (gqlRequest (\<lambda>r. []) 1 200 (\<lambda>k. Inr internal_error_reply) 1)) = 3
   \<and> (3::nat) \<noteq> 1"
proof -
  have "gqlRequest (\<lambda>r. []) 1 200 (\<lambda>k. Inr internal_error_reply) 1
      = (Inl (GraphQLErrors (json_quote ''Internal server error'')),
         [Fetch, Sleep 200 0, Fetch, Sleep 400 0, Fetch])"
    by (simp add: gqlRequest.simps internal_error_reply_def ok_def)
  moreover have "gql_retryable (\<lambda>r. []) internal_error_reply"
    by (simp add: gql_retryable_def transient_errors_def internal_error_reply_def ok_def
        json_quote_def json_escape_char_def)
  ultimately show ?thesis by (simp add: fetches_def)
qed

lemma fetchJson_retry_step:
  assumes "exec tryNum = Inr res" "retryable_status (status res)" "tryNum < maxRetries"
  shows "fetchJsonWithRetry maxRetries exec tryNum
       = (case fetchJsonWithRetry maxRetries exec (tryNum + 1) of
            (r, tr) \<Rightarrow> (r, Fetch # http_backoff tryNum # tr))"
  using assms retryable_not_ok [of res] by (subst fetchJsonWithRetry.simps) simp

lemma fetchJson_fatal_status:
  assumes "exec tryNum = Inr res" "\<not> ok res" "\<not> retryable_status (status res)"
  shows "fetchJsonWithRetry maxRetries exec tryNum = (Inl (http_failure res), [Fetch])"
  using assms by (subst fetchJsonWithRetry.simps) (simp add: http_failure_def)

lemma gql_http_retry_step:
  assumes "exec tryNum = Inr res" "retryable_status (status res)" "tryNum < maxRetries"
  shows "gqlRequest shown maxRetries rl exec tryNum
       = (case gqlRequest shown maxRetries rl exec (tryNum + 1) of
            (r, tr) \<Rightarrow> (r, Fetch # gql_http_backoff tryNum # tr))"
  using assms retryable_not_ok [of res] by (subst gqlRequest.simps) simp

lemma gql_fatal_status:
  assumes "exec tryNum = Inr res" "\<not> ok res" "\<not> retryable_status (status res)"
  shows "gqlRequest shown maxRetries rl exec tryNum = (Inl (gql_failure shown res), [Fetch])"
  using assms by (subst gqlRequest.simps) (simp add: gql_failure_def)

lemma reports_errorsE:
  assumes "reports_errors res"
  obtains j errs where "ok res" "parsed res = Some j" "read_prop j ''errors'' = Inr errs" "truthy errs"
  using assms by (auto simp: reports_errors_def split: option.splits sum.splits)

lemma gql_errors_early_retry:
  assumes "exec tryNum = Inr res" "reports_errors res" "tryNum < 3"
  shows "gqlRequest shown maxRetries rl exec tryNum
       = (case gqlRequest shown maxRetries rl exec (tryNum + 1) of
            (r, tr) \<Rightarrow> (r, Fetch # Sleep (200 * tryNum) 0 # tr))"
proof -
  from assms(2) obtain j errs where "ok res" "parsed res = Some j" "read_prop j ''errors'' = Inr errs" "truthy errs"
    by (rule reports_errorsE)
  then show ?thesis using assms(1,3) by (subst gqlRequest.simps) simp
qed

lemma gql_errors_transient_retry:
  assumes "exec tryNum = Inr res" "transient_errors shown res" "3 \<le> tryNum" "tryNum < maxRetries"
  shows "gqlRequest shown maxRetries rl exec tryNum
       = (case gqlRequest shown maxRetries rl exec (tryNum + 1) of
            (r, tr) \<Rightarrow> (r, Fetch # gql_error_backoff tryNum # tr))"
proof -
  from assms(2) obtain j errs where "ok res" "parsed res = Some j" "read_prop j ''errors'' = Inr errs" "truthy errs"
     "str_includes (JSON_stringify shown errs) ''Internal server error''"
    by (auto simp: transient_errors_def split: option.splits sum.splits)
  then show ?thesis using assms(1,3,4) by (subst gqlRequest.simps) simp
qed

lemma gql_errors_fatal:
  assumes "exec tryNum = Inr res" "reports_errors res" "3 \<le> tryNum"
    and "\<not> transient_errors shown res \<or> maxRetries \<le> tryNum"
  shows "gqlRequest shown maxRetries rl exec tryNum = (Inl (GraphQLErrors (errors_text shown res)), [Fetch])"
proof -
  from assms(2) obtain j errs where j: "ok res" "parsed res = Some j" "read_prop j ''errors'' = Inr errs" "truthy errs"
    by (rule reports_errorsE)
  then have "\<not> str_includes (JSON_stringify shown errs) ''Internal server error'' \<or> maxRetries \<le> tryNum"
    using assms(4) by (auto simp: transient_errors_def)
  then show ?thesis using assms(1,3) j
    by (subst gqlRequest.simps) (auto simp: errors_text_def)
qed

text \<open>
  C4 (as amended). A response with status 429, 500, 502, 503 or 504 is retried while
  attempts remain; any other status outside 200--299 is fatal. A response that reports
  GraphQL errors is retried on the first and on the second attempt whatever its content;
  from the third attempt on it is retried only when the error text contains
  \<^verbatim>\<open>Internal server error\<close> and attempts remain, and it is fatal when the text does not
  contain the pattern.
\<close>

theorem outcome_classification:
  assumes "exec tryNum = Inr res"
  shows "(retryable_status (status res) \<and> tryNum < maxRetries \<longrightarrow>
            fetchJsonWithRetry maxRetries exec tryNum
              = (case fetchJsonWithRetry maxRetries exec (tryNum + 1) of
                   (r, tr) \<Rightarrow> (r, Fetch # http_backoff tryNum # tr))
            \<and> gqlRequest shown maxRetries rl exec tryNum
              = (case gqlRequest shown maxRetries rl exec (tryNum + 1) of
                   (r, tr) \<Rightarrow> (r, Fetch # gql_http_backoff tryNum # tr)))
       \<and> (\<not> ok res \<and> \<not> retryable_status (status res) \<longrightarrow>
            fetchJsonWithRetry maxRetries exec tryNum = (Inl (http_failure res), [Fetch])
            \<and> gqlRequest shown maxRetries rl exec tryNum = (Inl (gql_failure shown res), [Fetch]))
       \<and> (reports_errors res \<and> tryNum < 3 \<longrightarrow>
            gqlRequest shown maxRetries rl exec tryNum
              = (case gqlRequest shown maxRetries rl exec (tryNum + 1) of
                   (r, tr) \<Rightarrow> (r, Fetch # Sleep (200 * tryNum) 0 # tr)))
       \<and> (transient_errors shown res \<and> 3 \<le> tryNum \<and> tryNum < maxRetries \<longrightarrow>
            gqlRequest shown maxRetries rl exec tryNum
              = (case gqlRequest shown maxRetries rl exec (tryNum + 1) of
                   (r, tr) \<Rightarrow> (r, Fetch # gql_error_backoff tryNum # tr)))
       \<and> (reports_errors res \<and> 3 \<le> tryNum \<and> \<not> transient_errors shown res \<longrightarrow>
            gqlRequest shown maxRetries rl exec tryNum
              = (Inl (GraphQLErrors (errors_text shown res)), [Fetch]))"
  using assms fetchJson_retry_step [of exec tryNum res maxRetries]
    gql_http_retry_step [of exec tryNum res maxRetries shown rl]
    fetchJson_fatal_status [of exec tryNum res maxRetries]
    gql_fatal_status [of exec tryNum res shown maxRetries rl]
    gql_errors_early_retry [of exec tryNum res shown maxRetries rl]
    gql_errors_transient_retry [of exec tryNum res shown maxRetries rl]
    gql_errors_fatal [of exec tryNum res shown maxRetries rl]
  by blast

theorem outcome_classification_witness:
  "fetchJsonWithRetry 5 (\<lambda>k. Inr unavailable) 2
     = (case fetchJsonWithRetry 5 (\<lambda>k. Inr unavailable) 3 of
          (r, tr) \<Rightarrow> (r, Fetch # http_backoff 2 # tr))
   \<and> fetchJsonWithRetry 5 (\<lambda>k. Inr not_found) 1 = (Inl (HttpError 404 ''Not Found'' []), [Fetch])
   \<and> gqlRequest (\<lambda>r. []) 5 200 (\<lambda>k. Inr not_found) 1 = (Inl (GraphQLHttpError 404 ''Not Found'' []), [Fetch])
   \<and> gqlRequest (\<lambda>r. []) 5 200 (\<lambda>k. Inr bad_query_reply) 2
     = (case gqlRequest (\<lambda>r. []) 5 200 (\<lambda>k. Inr bad_query_reply) 3 of
          (r, tr) \<Rightarrow> (r, Fetch # Sleep 400 0 # tr))
   \<and> gqlRequest (\<lambda>r. []) 5 200 (\<lambda>k. Inr internal_error_reply) 3
     = (case gqlRequest (\<lambda>r. []) 5 200 (\<lambda>k. Inr internal_error_reply) 4 of
          (r, tr) \<Rightarrow> (r, Fetch # gql_error_backoff 3 # tr))
   \<and> gqlRequest (\<lambda>r. []) 5 200 (\<lambda>k. Inr bad_query_reply) 3
     = (Inl (GraphQLErrors (json_quote ''Unknown field'')), [Fetch])"
proof -
  have s503: "retryable_status (status unavailable) \<and> (2::nat) < 5"
    by (simp add: retryable_status_def unavailable_def)
  have s404: "\<not> ok not_found \<and> \<not> retryable_status (status not_found)"
    by (simp add: retryable_status_def ok_def not_found_def)
  have bad: "reports_errors bad_query_reply \<and> \<not> transient_errors (\<lambda>r. []) bad_query_reply"
    by (simp add: reports_errors_def transient_errors_def bad_query_reply_def ok_def
        json_quote_def json_escape_char_def)
  have ise: "transient_errors (\<lambda>r. []) internal_error_reply"
    by (simp add: transient_errors_def internal_error_reply_def ok_def json_quote_def json_escape_char_def)
  have a: "fetchJsonWithRetry 5 (\<lambda>k. Inr unavailable) 2
     = (case fetchJsonWithRetry 5 (\<lambda>k. Inr unavailable) 3 of
          (r, tr) \<Rightarrow> (r, Fetch # http_backoff 2 # tr))"
    using outcome_classification [of "\<lambda>k. Inr unavailable" 2 unavailable 5 "\<lambda>r. []" 200] s503
    by simp
  have b: "fetchJsonWithRetry 5 (\<lambda>k. Inr not_found) 1 = (Inl (HttpError 404 ''Not Found'' []), [Fetch])
      \<and> gqlRequest (\<lambda>r. []) 5 200 (\<lambda>k. Inr not_found) 1 = (Inl (GraphQLHttpError 404 ''Not Found'' []), [Fetch])"
    using outcome_classification [of "\<lambda>k. Inr not_found" 1 not_found 5 "\<lambda>r. []" 200] s404
    by (simp add: http_failure_def gql_failure_def not_found_def)
  have c: "gqlRequest (\<lambda>r. []) 5 200 (\<lambda>k. Inr bad_query_reply) 2
     = (case gqlRequest (\<lambda>r. []) 5 200 (\<lambda>k. Inr bad_query_reply) 3 of
          (r, tr) \<Rightarrow> (r, Fetch # Sleep 400 0 # tr))"
    using outcome_classification [of "\<lambda>k. Inr bad_query_reply" 2 bad_query_reply 5 "\<lambda>r. []" 200] bad
    by simp
  have d: "gqlRequest (\<lambda>r. []) 5 200 (\<lambda>k. Inr internal_error_reply) 3
     = (case gqlRequest (\<lambda>r. []) 5 200 (\<lambda>k. Inr internal_error_reply) 4 of
          (r, tr) \<Rightarrow> (r, Fetch # gql_error_backoff 3 # tr))"
    using outcome_classification [of "\<lambda>k. Inr internal_error_reply" 3 internal_error_reply 5 "\<lambda>r. []" 200] ise
    by simp
  have e: "gqlRequest (\<lambda>r. []) 5 200 (\<lambda>k. Inr bad_query_reply) 3
     = (Inl (GraphQLErrors (json_quote ''Unknown field'')), [Fetch])"
    using outcome_classification [of "\<lambda>k. Inr bad_query_reply" 3 bad_query_reply 5 "\<lambda>r. []" 200] bad
    by (simp add: errors_text_def bad_query_reply_def)
  show ?thesis
    using a b c d e by (intro conjI) simp_all
qed

text \<open>
  The claim as stated makes every GraphQL error without the transient pattern fatal at
  once. A reply whose only error is \<^verbatim>\<open>Unknown field\<close> is requested three times.
\<close>

theorem graphql_error_retried_counterexample:
  "reports_errors bad_query_reply
   \<and> \<not> transient_errors (\<lambda>r. []) bad_query_reply
   \<and> gqlRequest (\<lambda>r. []) 5 200 (\<lambda>k. Inr bad_query_reply) 1
       = (Inl (GraphQLErrors (json_quote ''Unknown field'')),
          [Fetch, Sleep 200 0, Fetch, Sleep 400 0, Fetch])
   \<and> fetches [Fetch, Sleep 200 0, Fetch, Sleep 400 0, Fetch] = 3"
proof -
  have "gqlRequest (\<lambda>r. []) 5 200 (\<lambda>k. Inr bad_query_reply) 1
       = (Inl (GraphQLErrors (json_quote ''Unknown field'')),
          [Fetch, Sleep 200 0, Fetch, Sleep 400 0, Fetch])"
    by (simp add: gqlRequest.simps bad_query_reply_def ok_def json_quote_def json_escape_char_def)
  moreover have "reports_errors bad_query_reply \<and> \<not> transient_errors (\<lambda>r. []) bad_query_reply"
    by (simp add: reports_errors_def transient_errors_def bad_query_reply_def ok_def
        json_quote_def json_escape_char_def)
  ultimately show ?thesis by (simp add: fetches_def)
qed

section \<open>Properties of the collection run\<close>

lemma fetchVaultDepositors_never_throws:
  "fetchVaultDepositors P va = Inr (depositors_or_none P va)"
  by (simp add: fetchVaultDepositors_def depositors_or_none_def split: sum.splits option.splits)

lemma vault_iteration_depositors:
  "map_of (vaultDepositors (vault_iteration P cfg va st)) a
     = (if va = ''__proto__'' then map_of (vaultDepositors st) a
        else if a = va then Some (depositors_or_none P va)
        else map_of (vaultDepositors st) a)"
  by (simp add: vault_iteration_def fetchVaultDepositors_never_throws Let_def map_of_obj_set)

lemma vault_loop_depositors:
  "\<not> testMode cfg \<Longrightarrow>
     map_of (vaultDepositors (vault_loop P cfg vs i st)) a
       = (if a \<noteq> ''__proto__'' \<and> a \<in> vault_address ` set vs then Some (depositors_or_none P a)
          else map_of (vaultDepositors st) a)"
proof (induction vs arbitrary: i st)
  case Nil
  then show ?case by simp
next
  case (Cons v vs)
  then show ?case
    by (auto simp: Let_def vault_iteration_depositors)
qed

lemma borrowersWithTransactions_all:
  "\<forall>b \<in> set bs. b_user b \<noteq> None \<Longrightarrow>
     borrowersWithTransactions getTxs mkt bs acc = Inr (acc @ map (with_transactions getTxs mkt) bs)"
proof (induction bs arbitrary: acc)
  case Nil
  then show ?case by simp
next
  case (Cons b bs)
  then obtain u where u: "b_user b = Some u" by auto
  have IH: "\<And>acc. borrowersWithTransactions getTxs mkt bs acc = Inr (acc @ map (with_transactions getTxs mkt) bs)"
    using Cons by simp
  show ?case
    using u IH by (simp add: with_transactions_def borrower_address_def split: sum.splits)
qed

lemma allMarketsData_all:
  "allMarketsData getTop getTxs mkts acc
     = acc @ map (process_market getTop getTxs) (filter has_assets mkts)"
  by (induction mkts arbitrary: acc) (auto simp: has_assets_def)

lemma process_market_borrowers_failed:
  "getTop (uniqueKey mkt) = Inl e \<Longrightarrow>
     process_market getTop getTxs mkt = \<lparr>e_market = mkt, e_topBorrowers = [], e_error = Some (error_message e)\<rparr>"
  by (simp add: process_market_def)

lemma process_market_transactions:
  "getTop (uniqueKey mkt) = Inr bs \<Longrightarrow> \<forall>b \<in> set bs. b_user b \<noteq> None \<Longrightarrow>
     process_market getTop getTxs mkt
       = \<lparr>e_market = mkt, e_topBorrowers = map (with_transactions getTxs mkt) bs, e_error = None\<rparr>"
  by (simp add: process_market_def borrowersWithTransactions_all)

lemma with_transactions_failed:
  "getTxs (borrower_address b) (uniqueKey mkt) = Inl e \<Longrightarrow>
     with_transactions getTxs mkt b = \<lparr>en_borrower = b, en_transactions = [], en_error = Some (error_message e)\<rparr>"
  by (simp add: with_transactions_def)

lemma run_collect_vaults:
  assumes "run_collect P cfg = Inr c" "\<not> testMode cfg"
  shows "\<exists>curators. curatorsAndVaults_result P = Inr (curators, c_vaults c)
        \<and> (\<forall>v \<in> set (c_vaults c).
              map_of (c_vaultDepositors c) (vault_address v) = (if vault_address v = ''__proto__'' then None
                     else Some (depositors_or_none P (vault_address v))))"
  using assms
  by (auto simp: run_collect_def vault_loop_depositors vault_init_def split: sum.splits prod.splits)

lemma run_collect_listing_fatal:
  "fetchAllMorphoMarkets (markets_request P) (morphoPageSize cfg) (marketsLimit cfg) = Inl e
     \<Longrightarrow> run_collect P cfg = Inl e"
  by (simp add: run_collect_def)

lemma run_collect_vault_listing_fatal:
  "curatorsAndVaults_result P = Inl e \<Longrightarrow> \<exists>e'. run_collect P cfg = Inl e'"
  by (simp add: run_collect_def split: sum.splits)

lemma vault_iteration_counters:
  "consecutiveFailures (vault_iteration P cfg va st) = 0
   \<and> failureCount (vault_iteration P cfg va st) = failureCount st
   \<and> vault_log (vault_iteration P cfg va st)
       = vault_log st @ (if maxConsecutiveFailures \<le> consecutiveFailures st then [breaker_sleep] else [])
           @ [Sleep (rateLimitMs cfg) 100]"
  by (simp add: vault_iteration_def fetchVaultDepositors_never_throws Let_def)

lemma vault_loop_counters:
  "consecutiveFailures st = 0 \<Longrightarrow>
     consecutiveFailures (vault_loop P cfg vs i st) = 0
     \<and> failureCount (vault_loop P cfg vs i st) = failureCount st
     \<and> set (vault_log (vault_loop P cfg vs i st)) \<subseteq> set (vault_log st) \<union> {Sleep (rateLimitMs cfg) 100}"
proof (induction vs arbitrary: i st)
  case Nil
  then show ?case by auto
next
  case (Cons v vs)
  let ?st = "vault_iteration P cfg (vault_address v) st"
  have it: "consecutiveFailures ?st = 0" "failureCount ?st = failureCount st"
     "vault_log ?st = vault_log st @ [Sleep (rateLimitMs cfg) 100]"
    using vault_iteration_counters [of P cfg "vault_address v" st] Cons.prems
    by (simp_all add: maxConsecutiveFailures_def)
  show ?case
  proof (cases "testMode cfg \<and> 3 < i")
    case True
    then show ?thesis using it by (simp add: Let_def)
  next
    case False
    then show ?thesis using it Cons.IH [of ?st "i + 1"] by (auto simp: Let_def)
  qed
qed

lemma vault_breaker_dead:
  "breaker_sleep \<notin> set (vault_log (vault_loop P cfg vs 0 vault_init))
   \<and> consecutiveFailures (vault_loop P cfg vs 0 vault_init) = 0
   \<and> failureCount (vault_loop P cfg vs 0 vault_init) = 0"
  using vault_loop_counters [of vault_init P cfg vs 0]
  by (auto simp: vault_init_def breaker_sleep_def)

lemma fetchAll_serve_pages:
  assumes "0 < P"
  shows "fetchAllUserTransactionsForMarket (serve_pages xs) P = Inr xs"
    and "fetchAllMorphoMarkets (serve_pages xs) P None = Inr xs"
  using paginate_well_formed_aux [OF serve_pages_well_formed assms, of xs]
  by (simp_all add: fetchAllUserTransactionsForMarket_def fetchAllMorphoMarkets_def)

lemma enrich_ignores_vault_requests:
  "enrich (P\<lparr>vaultPositions_request := f\<rparr>) cfg mkt bs acc = enrich P cfg mkt bs acc"
  by (induction bs arbitrary: acc) (simp_all split: sum.splits option.splits)

lemma market_task_ignores_vault_requests:
  "market_task (P\<lparr>vaultPositions_request := f\<rparr>) cfg = market_task P cfg"
  by (rule ext)
    (simp add: market_task_def fetchTopBorrowersForMarket_def enrich_ignores_vault_requests
      split: sum.splits option.splits)

lemma run_collect_vault_requests_isolated:
  "isl (run_collect (P\<lparr>vaultPositions_request := f\<rparr>) cfg) = isl (run_collect P cfg)"
  by (simp add: run_collect_def market_task_ignores_vault_requests split: sum.splits prod.splits)

text \<open>
  C2 (as amended). In \<^verbatim>\<open>buildCompleteDataset\<close> a failure of the market listing aborts;
  otherwise every market with asset data is emitted, in order. When the fetch of its top
  borrowers fails, the market is emitted with no borrower and the message of the error;
  when the fetch of a borrower's transactions fails, that borrower is emitted with no
  transaction and the message of the error, and the other borrowers are not affected. In
  \<^verbatim>\<open>run\<close>, \<^verbatim>\<open>fetchVaultDepositors\<close> never throws: a failed request yields the empty
  list. Whether \<^verbatim>\<open>run\<close> aborts does not depend on the vault requests at all; when it
  completes (outside test mode) every listed vault is emitted and has its depositors, or
  none, recorded under its address (no entry can be recorded under the name
  \<^verbatim>\<open>__proto__\<close>). A failure of the market listing or of the curator and vault listing
  aborts the run.
\<close>

theorem failure_isolation:
  "(getAllMarkets = Inl e \<longrightarrow> buildCompleteDataset getAllMarkets getTop getTxs = Inl e)
   \<and> (getAllMarkets = Inr mkts \<longrightarrow>
        buildCompleteDataset getAllMarkets getTop getTxs
          = Inr (map (process_market getTop getTxs) (filter has_assets mkts)))
   \<and> (getTop (uniqueKey mkt) = Inl e \<longrightarrow>
        process_market getTop getTxs mkt
          = \<lparr>e_market = mkt, e_topBorrowers = [], e_error = Some (error_message e)\<rparr>)
   \<and> (getTop (uniqueKey mkt) = Inr bs \<and> (\<forall>b \<in> set bs. b_user b \<noteq> None) \<longrightarrow>
        process_market getTop getTxs mkt
          = \<lparr>e_market = mkt, e_topBorrowers = map (with_transactions getTxs mkt) bs, e_error = None\<rparr>)
   \<and> (getTxs (borrower_address b) (uniqueKey mkt) = Inl e \<longrightarrow>
        with_transactions getTxs mkt b
          = \<lparr>en_borrower = b, en_transactions = [], en_error = Some (error_message e)\<rparr>)
   \<and> fetchVaultDepositors P va = Inr (depositors_or_none P va)
   \<and> (vaultPositions_request P va = Inl e \<longrightarrow> depositors_or_none P va = [])
   \<and> isl (run_collect (P\<lparr>vaultPositions_request := f\<rparr>) cfg) = isl (run_collect P cfg)
   \<and> (run_collect P cfg = Inr c \<and> \<not> testMode cfg \<longrightarrow>
        (\<exists>curators. curatorsAndVaults_result P = Inr (curators, c_vaults c)
          \<and> (\<forall>v \<in> set (c_vaults c).
                map_of (c_vaultDepositors c) (vault_address v)
                  = (if vault_address v = ''__proto__'' then None
                     else Some (depositors_or_none P (vault_address v))))))
   \<and> (fetchAllMorphoMarkets (markets_request P) (morphoPageSize cfg) (marketsLimit cfg) = Inl e \<longrightarrow>
        run_collect P cfg = Inl e)
   \<and> (curatorsAndVaults_result P = Inl e \<longrightarrow> (\<exists>e'. run_collect P cfg = Inl e'))"
proof -
  have c1: "getAllMarkets = Inl e \<longrightarrow> buildCompleteDataset getAllMarkets getTop getTxs = Inl e"
    by (simp add: buildCompleteDataset_def)
  have c2: "getAllMarkets = Inr mkts \<longrightarrow>
        buildCompleteDataset getAllMarkets getTop getTxs
          = Inr (map (process_market getTop getTxs) (filter has_assets mkts))"
    by (simp add: buildCompleteDataset_def allMarketsData_all)
  have c3: "getTop (uniqueKey mkt) = Inl e \<longrightarrow>
        process_market getTop getTxs mkt
          = \<lparr>e_market = mkt, e_topBorrowers = [], e_error = Some (error_message e)\<rparr>"
    using process_market_borrowers_failed by blast
  have c4: "getTop (uniqueKey mkt) = Inr bs \<and> (\<forall>b \<in> set bs. b_user b \<noteq> None) \<longrightarrow>
        process_market getTop getTxs mkt
          = \<lparr>e_market = mkt, e_topBorrowers = map (with_transactions getTxs mkt) bs, e_error = None\<rparr>"
    using process_market_transactions by blast
  have c5: "getTxs (borrower_address b) (uniqueKey mkt) = Inl e \<longrightarrow>
        with_transactions getTxs mkt b
          = \<lparr>en_borrower = b, en_transactions = [], en_error = Some (error_message e)\<rparr>"
    using with_transactions_failed by blast
  have c6: "fetchVaultDepositors P va = Inr (depositors_or_none P va)"
    by (rule fetchVaultDepositors_never_throws)
  have c7: "vaultPositions_request P va = Inl e \<longrightarrow> depositors_or_none P va = []"
    by (simp add: depositors_or_none_def)
  have c8: "isl (run_collect (P\<lparr>vaultPositions_request := f\<rparr>) cfg) = isl (run_collect P cfg)"
    by (rule run_collect_vault_requests_isolated)
  have c9: "run_collect P cfg = Inr c \<and> \<not> testMode cfg \<longrightarrow>
        (\<exists>curators. curatorsAndVaults_result P = Inr (curators, c_vaults c)
          \<and> (\<forall>v \<in> set (c_vaults c).
                map_of (c_vaultDepositors c) (vault_address v)
                  = (if vault_address v = ''__proto__'' then None
                     else Some (depositors_or_none P (vault_address v)))))"
    using run_collect_vaults by blast
  have c10: "fetchAllMorphoMarkets (markets_request P) (morphoPageSize cfg) (marketsLimit cfg) = Inl e \<longrightarrow>
        run_collect P cfg = Inl e"
    using run_collect_listing_fatal by blast
  have c11: "curatorsAndVaults_result P = Inl e \<longrightarrow> (\<exists>e'. run_collect P cfg = Inl e')"
    using run_collect_vault_listing_fatal by blast
  show ?thesis
    using c1 c2 c3 c4 c5 c6 c7 c8 c9 c10 c11 by (intro conjI)
qed

theorem failure_isolation_witness:
  "buildCompleteDataset (Inl (NetworkError ''fetch failed'')) (\<lambda>k. Inr [alice]) (\<lambda>a k. Inr [7::nat])
     = Inl (NetworkError ''fetch failed'')
   \<and> buildCompleteDataset (Inr [usdc_market]) (\<lambda>k. Inl (NetworkError ''fetch failed'')) (\<lambda>a k. Inr [7::nat])
     = Inr [\<lparr>e_market = usdc_market, e_topBorrowers = [], e_error = Some ''fetch failed''\<rparr>]
   \<and> buildCompleteDataset (Inr [usdc_market]) (\<lambda>k. Inr [alice]) (\<lambda>a k. Inl (NetworkError ''fetch failed''))
     = Inr [\<lparr>e_market = usdc_market,
             e_topBorrowers = [\<lparr>en_borrower = alice, en_transactions = ([]::nat list),
                                 en_error = Some ''fetch failed''\<rparr>],
             e_error = None\<rparr>]
   \<and> vaultPositions_request vaults_down_provider ''0xa'' = Inl (NetworkError ''fetch failed'')
   \<and> fetchVaultDepositors vaults_down_provider ''0xa'' = Inr []
   \<and> \<not> isl (run_collect vaults_down_provider default_config)
   \<and> map_of (c_vaultDepositors (projr (run_collect vaults_down_provider default_config))) ''0xa''
       = Some []"
proof -
  let ?down = "NetworkError ''fetch failed''"
  have assets: "filter has_assets [usdc_market] = [usdc_market]"
    by (simp add: has_assets_def usdc_market_def)
  have a: "buildCompleteDataset (Inl ?down) (\<lambda>k. Inr [alice]) (\<lambda>a k. Inr [7::nat]) = Inl ?down"
    using failure_isolation [where getAllMarkets = "Inl ?down" and e = "?down"
        and getTop = "\<lambda>k. Inr [alice]" and getTxs = "\<lambda>a k. Inr [7::nat]", THEN conjunct1]
    by simp
  note fb = failure_isolation [where getAllMarkets = "Inr [usdc_market]" and mkts = "[usdc_market]"
        and mkt = usdc_market and e = "?down"
        and getTop = "\<lambda>k. Inl ?down" and getTxs = "\<lambda>a k. Inr [7::nat]"]
  have b: "buildCompleteDataset (Inr [usdc_market]) (\<lambda>k. Inl ?down) (\<lambda>a k. Inr [7::nat])
     = Inr [\<lparr>e_market = usdc_market, e_topBorrowers = [], e_error = Some ''fetch failed''\<rparr>]"
    using fb [THEN conjunct2, THEN conjunct1] fb [THEN conjunct2, THEN conjunct2, THEN conjunct1] assets
    by simp
  have users: "\<forall>b \<in> set [alice]. b_user b \<noteq> None"
    by (simp add: alice_def)
  note fc = failure_isolation [where getAllMarkets = "Inr [usdc_market]" and mkts = "[usdc_market]"
        and mkt = usdc_market and e = "?down" and bs = "[alice]" and b = alice
        and getTop = "\<lambda>k. Inr [alice]" and getTxs = "\<lambda>a k. (Inl ?down :: error + nat list)"]
  have c: "buildCompleteDataset (Inr [usdc_market]) (\<lambda>k. Inr [alice]) (\<lambda>a k. Inl ?down)
     = Inr [\<lparr>e_market = usdc_market,
             e_topBorrowers = [\<lparr>en_borrower = alice, en_transactions = ([]::nat list),
                                 en_error = Some ''fetch failed''\<rparr>],
             e_error = None\<rparr>]"
    using fc [THEN conjunct2, THEN conjunct1] fc [THEN conjunct2, THEN conjunct2, THEN conjunct2, THEN conjunct1] fc [THEN conjunct2, THEN conjunct2, THEN conjunct2, THEN conjunct2, THEN conjunct1] assets users
    by simp
  have req: "vaultPositions_request vaults_down_provider ''0xa'' = Inl ?down"
    by (simp add: vaults_down_provider_def)
  note vd = failure_isolation [where P = vaults_down_provider and va = "''0xa''" and e = "?down"
        and cfg = default_config and f = "\<lambda>va. Inr (Some [])"
        and c = "projr (run_collect vaults_down_provider default_config)"]
  have d: "fetchVaultDepositors vaults_down_provider ''0xa'' = Inr []"
    using vd [THEN conjunct2, THEN conjunct2, THEN conjunct2, THEN conjunct2, THEN conjunct2, THEN conjunct1] vd [THEN conjunct2, THEN conjunct2, THEN conjunct2, THEN conjunct2, THEN conjunct2, THEN conjunct2, THEN conjunct1] req by simp
  have mk: "fetchAllMorphoMarkets (serve_pages [usdc_market]) 50 None = Inr [usdc_market]"
    and tx: "fetchAllUserTransactionsForMarket (serve_pages [7, 8::nat]) 200 = Inr [7, 8]"
    by (simp_all add: fetchAll_serve_pages)
  have ok: "\<not> isl (run_collect healthy_provider default_config)"
    using mk tx
    by (simp add: run_collect_def healthy_provider_def default_config_def market_task_def
        fetchTopBorrowersForMarket_def borrower_address_def alice_def)
  have same: "vaults_down_provider\<lparr>vaultPositions_request := \<lambda>va. Inr (Some [])\<rparr> = healthy_provider"
    by (simp add: vaults_down_provider_def healthy_provider_def)
  have e: "\<not> isl (run_collect vaults_down_provider default_config)"
    using vd [THEN conjunct2, THEN conjunct2, THEN conjunct2, THEN conjunct2, THEN conjunct2, THEN conjunct2, THEN conjunct2, THEN conjunct1] ok same by simp
  then have r: "run_collect vaults_down_provider default_config
      = Inr (projr (run_collect vaults_down_provider default_config))"
    by (cases "run_collect vaults_down_provider default_config") simp_all
  have nt: "\<not> testMode default_config" by (simp add: default_config_def)
  have lst: "curatorsAndVaults_result vaults_down_provider = Inr ([], six_vaults)"
    by (simp add: vaults_down_provider_def healthy_provider_def)
  have none: "\<And>va. depositors_or_none vaults_down_provider va = []"
    by (simp add: depositors_or_none_def vaults_down_provider_def)
  let ?c = "projr (run_collect vaults_down_provider default_config)"
  have all: "\<exists>curators. curatorsAndVaults_result vaults_down_provider = Inr (curators, c_vaults ?c)
      \<and> (\<forall>v \<in> set (c_vaults ?c).
            map_of (c_vaultDepositors ?c) (vault_address v)
              = (if vault_address v = ''__proto__'' then None
                 else Some (depositors_or_none vaults_down_provider (vault_address v))))"
    using vd [THEN conjunct2, THEN conjunct2, THEN conjunct2, THEN conjunct2, THEN conjunct2, THEN conjunct2, THEN conjunct2, THEN conjunct2, THEN conjunct1] r nt
    by blast
  then have vs: "c_vaults ?c = six_vaults" using lst by auto
  have mem: "\<lparr>vault_address = ''0xa'', v_fields = JNull\<rparr> \<in> set (c_vaults ?c)"
    using vs by (simp add: six_vaults_def)
  have "map_of (c_vaultDepositors ?c) (vault_address \<lparr>vault_address = ''0xa'', v_fields = JNull\<rparr>)
      = (if vault_address \<lparr>vault_address = ''0xa'', v_fields = JNull\<rparr> = ''__proto__'' then None
         else Some (depositors_or_none vaults_down_provider
                (vault_address \<lparr>vault_address = ''0xa'', v_fields = JNull\<rparr>)))"
    using all mem by blast
  then have g: "map_of (c_vaultDepositors ?c) ''0xa'' = Some []"
    using none by simp
  show ?thesis
    using a b c req d e g by (intro conjI)
qed

text \<open>
  The claim as stated fails in \<^verbatim>\<open>run\<close> on two points. The task of a market has no
  \<^verbatim>\<open>try\<close>: when the fetch of its top borrowers fails, \<^verbatim>\<open>Promise.all\<close> rejects and the
  run ends with that error although the market listing succeeded. And a vault whose
  depositor request failed is recorded exactly as a vault without depositors: the state
  after the vault loop is the same for the provider that fails and for the one that answers
  with empty lists, so no error note is attached.
\<close>

theorem failure_isolation_counterexample:
  "fetchAllMorphoMarkets (markets_request positions_down_provider)
       (morphoPageSize default_config) (marketsLimit default_config) = Inr [usdc_market]
   \<and> run_collect positions_down_provider default_config = Inl (NetworkError ''fetch failed'')
   \<and> vault_loop vaults_down_provider default_config six_vaults 0 vault_init
       = vault_loop healthy_provider default_config six_vaults 0 vault_init"
proof -
  have mk: "fetchAllMorphoMarkets (serve_pages [usdc_market]) 50 None = Inr [usdc_market]"
    by (simp add: fetchAll_serve_pages)
  have a: "fetchAllMorphoMarkets (markets_request positions_down_provider)
       (morphoPageSize default_config) (marketsLimit default_config) = Inr [usdc_market]"
    using mk by (simp add: positions_down_provider_def healthy_provider_def default_config_def)
  have b: "run_collect positions_down_provider default_config = Inl (NetworkError ''fetch failed'')"
    using a
    by (simp add: run_collect_def market_task_def fetchTopBorrowersForMarket_def
        positions_down_provider_def healthy_provider_def)
  have c: "vault_loop vaults_down_provider default_config six_vaults 0 vault_init
       = vault_loop healthy_provider default_config six_vaults 0 vault_init"
    by (simp add: six_vaults_def vaults_down_provider_def healthy_provider_def default_config_def
        vault_init_def vault_iteration_def fetchVaultDepositors_def maxConsecutiveFailures_def Let_def
        obj_set_plain)
  show ?thesis using a b c by (intro conjI)
qed

text \<open>
  C8. The vault loop keeps a counter of consecutive failures and, once it reaches 5, is
  meant to sleep 5 seconds plus jitter before it goes on. The counter is raised in the
  \<^verbatim>\<open>catch\<close> of the loop, but \<^verbatim>\<open>fetchVaultDepositors\<close> catches every error itself and
  returns the empty list, so that \<^verbatim>\<open>catch\<close> is never entered: with six vaults whose
  requests all fail, no failure is counted and the only sleeps are the six pacing delays.
\<close>

theorem vault_breaker_never_trips:
  "vault_loop vaults_down_provider default_config six_vaults 0 vault_init
     = \<lparr>vaultDepositors = [(''0xa'', []), (''0xb'', []), (''0xc'', []), (''0xd'', []), (''0xe'', []), (''0xf'', [])],
        failureCount = 0, consecutiveFailures = 0,
        vault_log = [Sleep 200 100, Sleep 200 100, Sleep 200 100, Sleep 200 100, Sleep 200 100, Sleep 200 100]\<rparr>
   \<and> breaker_sleep \<notin> set [Sleep 200 100, Sleep 200 100, Sleep 200 100, Sleep 200 100, Sleep 200 100, Sleep 200 100]"
  by (simp add: six_vaults_def vaults_down_provider_def healthy_provider_def default_config_def vault_init_def
      vault_iteration_def fetchVaultDepositors_def maxConsecutiveFailures_def breaker_sleep_def Let_def
      obj_set_plain)

section \<open>Properties of the vault depositor sheet\<close>

lemma extractAssetsUsd_shapes:
  "extractAssetsUsd (tx_with_usd h a) = a"
  "extractAssetsUsd (tx_repaid h a) = a"
  "extractAssetsUsd (tx_without_usd h) = 0"
  "extractAssetsUsd (tx_without_data h) = 0"
  by (simp_all add: extractAssetsUsd_def number_or_def tx_with_usd_def tx_repaid_def
      tx_without_usd_def tx_without_data_def)

lemma sortedTransactions_sorted:
  "sorted (map (\<lambda>tx. - extractAssetsUsd tx) (sortedTransactions txs))"
  by (simp add: sortedTransactions_def)

lemma sorted_desc_take_drop:
  assumes "sorted (map f xs)" "r \<in> set (take n xs)" "d \<in> set (drop n xs)"
  shows "f r \<le> f d"
proof -
  have "sorted (map f (take n xs) @ map f (drop n xs))"
    using assms(1) by (metis append_take_drop_id map_append)
  then show ?thesis using assms(2,3) by (auto simp: sorted_append)
qed

lemma sorted_split_negative:
  fixes f :: "'a \<Rightarrow> real"
  assumes "sorted (map f xs)" "\<forall>x \<in> set xs. f x \<le> 0"
  shows "xs = filter (\<lambda>x. f x \<noteq> 0) xs @ filter (\<lambda>x. \<not> f x \<noteq> 0) xs"
  using assms
proof (induction xs)
  case Nil
  then show ?case by simp
next
  case (Cons x xs)
  show ?case
  proof (cases "f x = 0")
    case True
    then have "\<forall>y \<in> set xs. f y = 0" using Cons.prems by fastforce
    then have "filter (\<lambda>x. f x \<noteq> 0) xs = []" "filter (\<lambda>x. \<not> f x \<noteq> 0) xs = xs"
      by (simp_all add: filter_empty_conv filter_id_conv)
    then show ?thesis using True by simp
  next
    case False
    then show ?thesis using Cons by simp
  qed
qed

lemma top5_nonzero:
  assumes nonneg: "\<forall>tx \<in> set txs. 0 \<le> extractAssetsUsd tx"
    and few: "length (filter (\<lambda>tx. extractAssetsUsd tx \<noteq> 0) txs) \<le> 5"
  shows "filter (\<lambda>tx. extractAssetsUsd tx \<noteq> 0) (top5Transactions txs)
       = sortedTransactions (filter (\<lambda>tx. extractAssetsUsd tx \<noteq> 0) txs)"
proof -
  let ?f = "\<lambda>tx. - extractAssetsUsd tx"
  let ?P = "\<lambda>tx. extractAssetsUsd tx \<noteq> 0"
  let ?s = "sort_key ?f txs"
  let ?A = "filter ?P ?s" and ?B = "filter (\<lambda>tx. \<not> ?P tx) ?s"
  have "?s = filter (\<lambda>x. ?f x \<noteq> 0) ?s @ filter (\<lambda>x. \<not> ?f x \<noteq> 0) ?s"
    by (rule sorted_split_negative) (use nonneg in simp_all)
  then have split: "?s = ?A @ ?B" by simp
  have A: "?A = sort_key ?f (filter ?P txs)" by (rule filter_sort)
  then have lenA: "length ?A \<le> 5" using few by simp
  have "take 5 ?s = take 5 (?A @ ?B)" using split by simp
  also have "\<dots> = ?A @ take (5 - length ?A) ?B" using lenA by simp
  finally have "filter ?P (take 5 ?s) = ?A @ filter ?P (take (5 - length ?A) ?B)"
    by simp
  moreover have "filter ?P (take (5 - length ?A) ?B) = []"
    by (auto simp: filter_empty_conv dest: in_set_takeD)
  ultimately show ?thesis
    using A by (simp add: top5Transactions_def sortedTransactions_def)
qed

lemma top_depositor_rows:
  "map userTransactions (morpho_vault_top_depositors vd)
     = concat (map (\<lambda>(va, its). map (\<lambda>it. top5Transactions (allTransactions_of it)) its) vd)"
  by (induction vd) (auto simp: morpho_vault_top_depositors_def top_depositor_row_def)

lemma extractAssetsUsd_precedence:
  "a \<noteq> 0 \<Longrightarrow>
     extractAssetsUsd \<lparr>tx_hash = h, tx_data = Some \<lparr>td_assetsUsd = Some a, td_repaidAssetsUsd = r\<rparr>\<rparr> = a"
  "b \<noteq> 0 \<Longrightarrow>
     extractAssetsUsd \<lparr>tx_hash = h, tx_data = Some \<lparr>td_assetsUsd = None, td_repaidAssetsUsd = Some b\<rparr>\<rparr> = b"
  "b \<noteq> 0 \<Longrightarrow>
     extractAssetsUsd \<lparr>tx_hash = h, tx_data = Some \<lparr>td_assetsUsd = Some 0, td_repaidAssetsUsd = Some b\<rparr>\<rparr> = b"
  "extractAssetsUsd \<lparr>tx_hash = h, tx_data = Some \<lparr>td_assetsUsd = None, td_repaidAssetsUsd = None\<rparr>\<rparr> = 0"
  "extractAssetsUsd \<lparr>tx_hash = h, tx_data = None\<rparr> = 0"
  by (simp_all add: extractAssetsUsd_def number_or_def)

lemma top_depositor_row_of:
  "dp_user it = Some u \<Longrightarrow> du_transactions u = Some txs \<Longrightarrow>
     top_depositor_row va it
       = \<lparr>vaultAddress = va, userAddress = du_address u, assetsUsd = dp_assetsUsd it,
          userTransactions = take 5 (sortedTransactions txs)\<rparr>"
  by (simp add: top_depositor_row_def allTransactions_of_def top5Transactions_def)

lemma top_depositor_row_without_transactions:
  "dp_user it = None \<or> (\<exists>u. dp_user it = Some u \<and> du_transactions u = None) \<Longrightarrow>
     userTransactions (top_depositor_row va it) = []"
  by (auto simp: top_depositor_row_def allTransactions_of_def top5Transactions_def
      sortedTransactions_def)

lemma top_depositors_length:
  "length (morpho_vault_top_depositors vd) = sum_list (map (\<lambda>(va, its). length its) vd)"
  by (induction vd) (auto simp: morpho_vault_top_depositors_def)

lemma top_depositors_single: "morpho_vault_top_depositors [(va, [it])] = [top_depositor_row va it]"
  by (simp add: morpho_vault_top_depositors_def)

lemma sortedTransactions_stable:
  "filter (\<lambda>tx. extractAssetsUsd tx = k) (sortedTransactions txs) = filter (\<lambda>tx. extractAssetsUsd tx = k) txs"
  using sort_key_stable [of "\<lambda>tx. - extractAssetsUsd tx" "- k" txs]
  by (simp add: sortedTransactions_def)

lemma top_depositor_row_nonzero:
  assumes "dp_user it = Some u" "du_transactions u = Some txs"
    and "\<forall>tx \<in> set txs. 0 \<le> extractAssetsUsd tx"
    and "length (filter (\<lambda>tx. extractAssetsUsd tx \<noteq> 0) txs) \<le> 5"
  shows "filter (\<lambda>tx. extractAssetsUsd tx \<noteq> 0) (userTransactions (top_depositor_row va it))
       = sortedTransactions (filter (\<lambda>tx. extractAssetsUsd tx \<noteq> 0) txs)"
  using top5_nonzero [OF assms(3,4)] top_depositor_row_of [OF assms(1,2), of va]
  by (simp add: top5Transactions_def)

lemma seven_tx_row:
  "morpho_vault_top_depositors [(''0xv'', [seven_tx_depositor])]
     = [\<lparr>vaultAddress = ''0xv'', userAddress = Some ''0xd0'', assetsUsd = Some 160,
         userTransactions =
           [tx_with_usd ''t4'' 100, tx_with_usd ''t6'' 50, tx_with_usd ''t2'' 10,
            tx_without_usd ''t1'', tx_without_data ''t3'']\<rparr>]"
  by (simp add: morpho_vault_top_depositors_def top_depositor_row_def allTransactions_of_def
      seven_tx_depositor_def top5Transactions_def sortedTransactions_def seven_transactions_def
      extractAssetsUsd_shapes)

text \<open>
  C6. For a depositor whose user carries the transactions \<open>txs\<close>, the row of the sheet holds
  the vault address, the user address, the depositor's USD assets, and the first five of
  \<open>txs\<close> in the order of descending USD value; a depositor without user or without
  transactions gets an empty list, and the sheet has one row for each depositor. The value
  is the direct \<^verbatim>\<open>assetsUsd\<close> when that is present and not zero, whatever
  \<^verbatim>\<open>repaidAssetsUsd\<close> is; else \<^verbatim>\<open>repaidAssetsUsd\<close>; else 0. The order is a stable
  sort: a permutation of \<open>txs\<close> in descending value that keeps transactions of equal value
  in their order of arrival, so no dropped transaction is worth more than a kept one. When no
  value is negative and at most five transactions have a value, the transactions with a
  value in the row are exactly all transactions with a value, in descending order. For the
  depositor with seven transactions, of which three carry 100, 50 and 10, the row keeps
  these three in descending order, followed by the two oldest transactions without value.
\<close>

theorem top_depositor_transactions:
  "(dp_user it = Some u \<and> du_transactions u = Some txs \<longrightarrow>
      top_depositor_row va it
        = \<lparr>vaultAddress = va, userAddress = du_address u, assetsUsd = dp_assetsUsd it,
           userTransactions = take 5 (sortedTransactions txs)\<rparr>)
   \<and> (dp_user it = None \<or> (\<exists>u. dp_user it = Some u \<and> du_transactions u = None) \<longrightarrow>
        userTransactions (top_depositor_row va it) = [])
   \<and> morpho_vault_top_depositors [(va, [it])] = [top_depositor_row va it]
   \<and> length (morpho_vault_top_depositors vd) = sum_list (map (\<lambda>(va, its). length its) vd)
   \<and> map userTransactions (morpho_vault_top_depositors vd)
       = concat (map (\<lambda>(va, its). map (\<lambda>it. top5Transactions (allTransactions_of it)) its) vd)
   \<and> top5Transactions txs = take 5 (sortedTransactions txs)
   \<and> length (top5Transactions txs) = min 5 (length txs)
   \<and> mset (sortedTransactions txs) = mset txs
   \<and> sorted (map (\<lambda>tx. - extractAssetsUsd tx) (sortedTransactions txs))
   \<and> filter (\<lambda>tx. extractAssetsUsd tx = k) (sortedTransactions txs)
       = filter (\<lambda>tx. extractAssetsUsd tx = k) txs
   \<and> (\<forall>r \<in> set (top5Transactions txs). \<forall>d \<in> set (drop 5 (sortedTransactions txs)).
         extractAssetsUsd d \<le> extractAssetsUsd r)
   \<and> (a \<noteq> 0 \<longrightarrow>
        extractAssetsUsd \<lparr>tx_hash = h, tx_data = Some \<lparr>td_assetsUsd = Some a, td_repaidAssetsUsd = r\<rparr>\<rparr> = a)
   \<and> (b \<noteq> 0 \<longrightarrow>
        extractAssetsUsd \<lparr>tx_hash = h, tx_data = Some \<lparr>td_assetsUsd = None, td_repaidAssetsUsd = Some b\<rparr>\<rparr> = b
        \<and> extractAssetsUsd \<lparr>tx_hash = h, tx_data = Some \<lparr>td_assetsUsd = Some 0, td_repaidAssetsUsd = Some b\<rparr>\<rparr> = b)
   \<and> extractAssetsUsd \<lparr>tx_hash = h, tx_data = Some \<lparr>td_assetsUsd = None, td_repaidAssetsUsd = None\<rparr>\<rparr> = 0
   \<and> extractAssetsUsd \<lparr>tx_hash = h, tx_data = None\<rparr> = 0
   \<and> (dp_user it = Some u \<and> du_transactions u = Some txs
        \<and> (\<forall>tx \<in> set txs. 0 \<le> extractAssetsUsd tx)
        \<and> length (filter (\<lambda>tx. extractAssetsUsd tx \<noteq> 0) txs) \<le> 5 \<longrightarrow>
        filter (\<lambda>tx. extractAssetsUsd tx \<noteq> 0) (userTransactions (top_depositor_row va it))
          = sortedTransactions (filter (\<lambda>tx. extractAssetsUsd tx \<noteq> 0) txs))
   \<and> morpho_vault_top_depositors [(''0xv'', [seven_tx_depositor])]
       = [\<lparr>vaultAddress = ''0xv'', userAddress = Some ''0xd0'', assetsUsd = Some 160,
           userTransactions =
             [tx_with_usd ''t4'' 100, tx_with_usd ''t6'' 50, tx_with_usd ''t2'' 10,
              tx_without_usd ''t1'', tx_without_data ''t3'']\<rparr>]"
proof -
  have c1: "dp_user it = Some u \<and> du_transactions u = Some txs \<longrightarrow>
      top_depositor_row va it
        = \<lparr>vaultAddress = va, userAddress = du_address u, assetsUsd = dp_assetsUsd it,
           userTransactions = take 5 (sortedTransactions txs)\<rparr>"
    using top_depositor_row_of by blast
  have c2: "dp_user it = None \<or> (\<exists>u. dp_user it = Some u \<and> du_transactions u = None) \<longrightarrow>
        userTransactions (top_depositor_row va it) = []"
    using top_depositor_row_without_transactions by blast
  have c6: "top5Transactions txs = take 5 (sortedTransactions txs)"
    by (simp add: top5Transactions_def)
  have c7: "length (top5Transactions txs) = min 5 (length txs)"
    by (simp add: top5Transactions_def sortedTransactions_def min.commute)
  have c8: "mset (sortedTransactions txs) = mset txs"
    by (simp add: sortedTransactions_def)
  have c11: "\<forall>r \<in> set (top5Transactions txs). \<forall>d \<in> set (drop 5 (sortedTransactions txs)).
         extractAssetsUsd d \<le> extractAssetsUsd r"
    using sorted_desc_take_drop [OF sortedTransactions_sorted, of _ 5 txs]
    by (fastforce simp: top5Transactions_def)
  have c12: "a \<noteq> 0 \<longrightarrow>
        extractAssetsUsd \<lparr>tx_hash = h, tx_data = Some \<lparr>td_assetsUsd = Some a, td_repaidAssetsUsd = r\<rparr>\<rparr> = a"
    by (simp add: extractAssetsUsd_precedence)
  have c13: "b \<noteq> 0 \<longrightarrow>
        extractAssetsUsd \<lparr>tx_hash = h, tx_data = Some \<lparr>td_assetsUsd = None, td_repaidAssetsUsd = Some b\<rparr>\<rparr> = b
        \<and> extractAssetsUsd \<lparr>tx_hash = h, tx_data = Some \<lparr>td_assetsUsd = Some 0, td_repaidAssetsUsd = Some b\<rparr>\<rparr> = b"
    by (simp add: extractAssetsUsd_precedence)
  have c16: "dp_user it = Some u \<and> du_transactions u = Some txs
        \<and> (\<forall>tx \<in> set txs. 0 \<le> extractAssetsUsd tx)
        \<and> length (filter (\<lambda>tx. extractAssetsUsd tx \<noteq> 0) txs) \<le> 5 \<longrightarrow>
        filter (\<lambda>tx. extractAssetsUsd tx \<noteq> 0) (userTransactions (top_depositor_row va it))
          = sortedTransactions (filter (\<lambda>tx. extractAssetsUsd tx \<noteq> 0) txs)"
    using top_depositor_row_nonzero by blast
  show ?thesis
    using c1 c2 top_depositors_single top_depositors_length top_depositor_rows c6 c7 c8
      sortedTransactions_sorted sortedTransactions_stable c11 c12 c13
      extractAssetsUsd_precedence(4) extractAssetsUsd_precedence(5) c16 seven_tx_row
    by (intro conjI)
qed

theorem top_depositor_transactions_witness:
  "top_depositor_row ''0xv'' seven_tx_depositor
     = \<lparr>vaultAddress = ''0xv'', userAddress = Some ''0xd0'', assetsUsd = Some 160,
        userTransactions = take 5 (sortedTransactions seven_transactions)\<rparr>
   \<and> filter (\<lambda>tx. extractAssetsUsd tx \<noteq> 0) (userTransactions (top_depositor_row ''0xv'' seven_tx_depositor))
       = [tx_with_usd ''t4'' 100, tx_with_usd ''t6'' 50, tx_with_usd ''t2'' 10]
   \<and> extractAssetsUsd \<lparr>tx_hash = ''t8'', tx_data = Some \<lparr>td_assetsUsd = Some 5, td_repaidAssetsUsd = Some 9\<rparr>\<rparr> = 5
   \<and> extractAssetsUsd (tx_repaid ''t9'' 9) = 9"
proof -
  let ?u = "\<lparr>du_address = Some ''0xd0'', du_transactions = Some seven_transactions\<rparr>"
  have usr: "dp_user seven_tx_depositor = Some ?u \<and> du_transactions ?u = Some seven_transactions"
    by (simp add: seven_tx_depositor_def)
  have nonneg: "\<forall>tx \<in> set seven_transactions. 0 \<le> extractAssetsUsd tx"
    by (simp add: seven_transactions_def extractAssetsUsd_shapes)
  have valued: "filter (\<lambda>tx. extractAssetsUsd tx \<noteq> 0) seven_transactions
      = [tx_with_usd ''t2'' 10, tx_with_usd ''t4'' 100, tx_with_usd ''t6'' 50]"
    by (simp add: seven_transactions_def extractAssetsUsd_shapes)
  then have few: "length (filter (\<lambda>tx. extractAssetsUsd tx \<noteq> 0) seven_transactions) \<le> 5"
    by simp
  note th = top_depositor_transactions [where it = seven_tx_depositor and u = ?u
      and txs = seven_transactions and va = "''0xv''" and a = 5 and r = "Some 9" and b = 9
      and h = "''t8''"]
  have row: "top_depositor_row ''0xv'' seven_tx_depositor
     = \<lparr>vaultAddress = ''0xv'', userAddress = du_address ?u, assetsUsd = dp_assetsUsd seven_tx_depositor,
        userTransactions = take 5 (sortedTransactions seven_transactions)\<rparr>"
    using th [THEN conjunct1] usr by blast
  have kept: "filter (\<lambda>tx. extractAssetsUsd tx \<noteq> 0) (userTransactions (top_depositor_row ''0xv'' seven_tx_depositor))
      = sortedTransactions (filter (\<lambda>tx. extractAssetsUsd tx \<noteq> 0) seven_transactions)"
    using th [THEN conjunct2, THEN conjunct2, THEN conjunct2, THEN conjunct2, THEN conjunct2,
        THEN conjunct2, THEN conjunct2, THEN conjunct2, THEN conjunct2, THEN conjunct2,
        THEN conjunct2, THEN conjunct2, THEN conjunct2, THEN conjunct2, THEN conjunct2,
        THEN conjunct1] usr nonneg few
    by blast
  have srt: "sortedTransactions [tx_with_usd ''t2'' 10, tx_with_usd ''t4'' 100, tx_with_usd ''t6'' 50]
      = [tx_with_usd ''t4'' 100, tx_with_usd ''t6'' 50, tx_with_usd ''t2'' 10]"
    by (simp add: sortedTransactions_def extractAssetsUsd_shapes)
  have both: "extractAssetsUsd \<lparr>tx_hash = ''t8'', tx_data = Some \<lparr>td_assetsUsd = Some 5, td_repaidAssetsUsd = Some 9\<rparr>\<rparr> = 5"
    using th [THEN conjunct2, THEN conjunct2, THEN conjunct2, THEN conjunct2, THEN conjunct2,
        THEN conjunct2, THEN conjunct2, THEN conjunct2, THEN conjunct2, THEN conjunct2,
        THEN conjunct2, THEN conjunct1]
    by simp
  have rep: "extractAssetsUsd (tx_repaid ''t9'' 9) = 9"
    by (simp add: extractAssetsUsd_shapes)
  have a: "top_depositor_row ''0xv'' seven_tx_depositor
     = \<lparr>vaultAddress = ''0xv'', userAddress = Some ''0xd0'', assetsUsd = Some 160,
        userTransactions = take 5 (sortedTransactions seven_transactions)\<rparr>"
    using row by (simp add: seven_tx_depositor_def)
  have b: "filter (\<lambda>tx. extractAssetsUsd tx \<noteq> 0) (userTransactions (top_depositor_row ''0xv'' seven_tx_depositor))
       = [tx_with_usd ''t4'' 100, tx_with_usd ''t6'' 50, tx_with_usd ''t2'' 10]"
    using kept valued srt by simp
  show ?thesis
    using a b both rep by (intro conjI)
qed

section \<open>Properties of the export\<close>

lemma dotted_nonempty: "k \<noteq> [] \<Longrightarrow> dotted p k \<noteq> []"
  by (simp add: dotted_def)






















lemma flatten_null_lookup:
  "p \<noteq> [] \<Longrightarrow> p \<noteq> ''__proto__'' \<Longrightarrow> v = JNull \<or> v = JUndefined \<Longrightarrow>
     map_of (flatten shown v p out) a = (if a = p then Some (JStr []) else map_of out a)"
  by (auto simp: map_of_obj_set)







section \<open>Properties of the concurrency gate\<close>

















end
